theory Spec2Isabelle
  imports Complex_Main "HOL-Library.Word"
begin

section \<open>JavaScript strings\<close>

text \<open>
  A JavaScript string is a sequence of 16-bit code units. Literals of the source are
  written \<open>js ''...''\<close>: every character of an ASCII literal is one code unit.
\<close>

type_synonym code_unit = "16 word"
type_synonym js_string = "code_unit list"

definition js :: "string \<Rightarrow> js_string" where
  "js s = map of_char s"

definition dot :: code_unit where
  "dot = 0x2E"

definition zero_char :: code_unit where
  "zero_char = 0x30"

definition minus_char :: code_unit where
  "minus_char = 0x2D"

text \<open>\<open>\d\<close> of a regular expression without the unicode flag: the ten ASCII digits.\<close>

definition is_digit :: "code_unit \<Rightarrow> bool" where
  "is_digit c \<longleftrightarrow> 0x30 \<le> c \<and> c \<le> 0x39"

text \<open>
  The code units \<open>String.prototype.trim\<close> removes: ECMAScript's WhiteSpace (TAB, VT, FF,
  SP, NBSP, ZWNBSP and the space separators of Unicode) and LineTerminator (LF, CR, LS, PS).
\<close>

definition is_white_space :: "code_unit \<Rightarrow> bool" where
  "is_white_space c \<longleftrightarrow>
     c = 0x09 \<or> c = 0x0A \<or> c = 0x0B \<or> c = 0x0C \<or> c = 0x0D \<or> c = 0x20 \<or> c = 0xA0 \<or>
     c = 0x1680 \<or> (0x2000 \<le> c \<and> c \<le> 0x200A) \<or> c = 0x2028 \<or> c = 0x2029 \<or>
     c = 0x202F \<or> c = 0x205F \<or> c = 0x3000 \<or> c = 0xFEFF"

definition trim :: "js_string \<Rightarrow> js_string" where
  "trim s = rev (dropWhile is_white_space (rev (dropWhile is_white_space s)))"

text \<open>\<open>s.split(sep)\<close> for a separator of one code unit; \<open>''.split('.')\<close> is \<open>['']\<close>.\<close>

fun split :: "code_unit \<Rightarrow> js_string \<Rightarrow> js_string list" where
  "split sep [] = [[]]"
| "split sep (c # cs) =
     (if c = sep then [] # split sep cs
      else (case split sep cs of [] \<Rightarrow> [[c]] | p # ps \<Rightarrow> (c # p) # ps))"

text \<open>
  An array destructuring pattern with a default, \<open>[a = d0, b = d1] = xs\<close>: the element
  at the index, or the default where the array has none.
\<close>

definition element_or :: "'a list \<Rightarrow> nat \<Rightarrow> 'a \<Rightarrow> 'a" where
  "element_or xs i d = (if i < length xs then xs ! i else d)"

text \<open>\<open>padEnd\<close> and \<open>padStart\<close> with a filler of one code unit: a string that already has
  the target length, or more, is returned unchanged.\<close>

definition padEnd :: "js_string \<Rightarrow> nat \<Rightarrow> code_unit \<Rightarrow> js_string" where
  "padEnd s n c = s @ replicate (n - length s) c"

definition padStart :: "js_string \<Rightarrow> nat \<Rightarrow> code_unit \<Rightarrow> js_string" where
  "padStart s n c = replicate (n - length s) c @ s"

text \<open>
  \<open>s.slice(start, end)\<close>: a negative index counts from the end of the string, both
  indices are clamped to the string, and an empty range gives the empty string. The
  source's \<open>-decimalPoints\<close> is \<open>-0\<close> when \<open>decimalPoints\<close> is 0, which \<open>slice\<close>
  reads as the index 0.
\<close>

definition slice_str :: "js_string \<Rightarrow> int \<Rightarrow> int \<Rightarrow> js_string" where
  "slice_str s start end =
     (let len = int (length s);
          from = (if start < 0 then max (len + start) 0 else min start len);
          to = (if end < 0 then max (len + end) 0 else min end len)
      in take (nat (to - from)) (drop (nat from) s))"

definition slice_from :: "js_string \<Rightarrow> int \<Rightarrow> js_string" where
  "slice_from s start = slice_str s start (int (length s))"

section \<open>Arbitrary-precision integers and their decimal form\<close>

definition digit_value :: "code_unit \<Rightarrow> nat" where
  "digit_value c = unat c - 48"

definition digit_char :: "nat \<Rightarrow> code_unit" where
  "digit_char n = of_nat (48 + n)"

text \<open>
  \<open>BigInt(s)\<close> on a non-empty string of decimal digits, the only strings \<open>parseAmount\<close>
  passes to it (lemma \<open>combined_digits\<close>): the digits read in base ten, leading zeros
  allowed.
\<close>

definition BigInt :: "js_string \<Rightarrow> int" where
  "BigInt s = int (foldl (\<lambda>a c. 10 * a + digit_value c) 0 s)"

fun digits_of :: "nat \<Rightarrow> js_string" where
  "digits_of n =
     (if n < 10 then [digit_char n] else digits_of (n div 10) @ [digit_char (n mod 10)])"

declare digits_of.simps [simp del]

text \<open>\<open>amount.toString()\<close> of a bigint.\<close>

definition toString :: "int \<Rightarrow> js_string" where
  "toString i = (if i < 0 then minus_char # digits_of (nat (- i)) else digits_of (nat i))"

section \<open>Errors\<close>

text \<open>
  The source raises \<open>Error\<close> objects told apart by their message; each kind the
  specification names is one constructor, and \<open>message\<close> gives the text the source
  builds for it. \<open>thrown\<close> is a value raised by a call into the ledger SDK, the
  session provider or the language: an \<open>Error\<close> object with its message, or any other
  value. \<open>Rethrown\<close> is such a value passing through the source unchanged.
\<close>

datatype thrown = ErrorObject js_string | NonError

datatype error =
    EmptyAmount
  | InvalidAmountFormat
  | TooManyDecimalPlaces nat
  | InvalidSecretKeyType
  | ProviderRequired
  | AccountDerivationFailed js_string
  | TransactionSigningFailed js_string
  | Rethrown thrown

fun message :: "error \<Rightarrow> js_string" where
  "message EmptyAmount = js ''Amount is required''"
| "message InvalidAmountFormat = js ''Invalid amount format''"
| "message (TooManyDecimalPlaces d) =
     js ''Too many decimal places (maximum '' @ digits_of d @ js '')''"
| "message InvalidSecretKeyType =
     js ''Web3Auth secretKey is not a Uint8Array (or number[]). Cannot sign transactions.''"
| "message ProviderRequired = js ''Provider is required to derive Algorand account''"
| "message (AccountDerivationFailed m) =
     js ''Failed to derive Algorand account from Web3Auth: '' @ m"
| "message (TransactionSigningFailed m) = js ''Failed to sign transaction: '' @ m"
| "message (Rethrown (ErrorObject m)) = m"
| "message (Rethrown NonError) = []"

section \<open>The amount codec\<close>

text \<open>
  The count \<open>decimals\<close> is a natural number, and an amount is a bigint, an integer of
  any size.

  The test \<open>/^\d+(\.\d+)?$/.test(trimmed)\<close>: one or more digits, then nothing, or a
  dot and one or more digits, up to the end of the string.
\<close>

definition amount_format :: "js_string \<Rightarrow> bool" where
  "amount_format t =
     (takeWhile is_digit t \<noteq> [] \<and>
      (case dropWhile is_digit t of
         [] \<Rightarrow> True
       | c # f \<Rightarrow> c = dot \<and> f \<noteq> [] \<and> list_all is_digit f))"

definition parseAmount :: "js_string \<Rightarrow> nat \<Rightarrow> error + int" where
  "parseAmount amount decimals =
     (let trimmed = trim amount in
      if trimmed = [] then Inl EmptyAmount
      else if \<not> amount_format trimmed then Inl InvalidAmountFormat
      else
        let parts = split dot trimmed;
            integerPart = element_or parts 0 (js ''0'');
            decimalPart = element_or parts 1 []
        in if length decimalPart > decimals then Inl (TooManyDecimalPlaces decimals)
           else
             let paddedDecimal = padEnd decimalPart decimals zero_char;
                 combined = integerPart @ paddedDecimal
             in Inr (BigInt combined))"

definition formatAmount :: "int \<Rightarrow> nat \<Rightarrow> js_string" where
  "formatAmount amount decimals =
     (let amountStr = toString amount;
          decimalPoints = decimals
      in if length amountStr \<le> decimalPoints
         then js ''0.'' @ padStart amountStr decimalPoints zero_char
         else
           let integerPart = slice_str amountStr 0 (- int decimalPoints);
               decimalPart = slice_from amountStr (- int decimalPoints)
           in integerPart @ [dot] @ decimalPart)"

text \<open>
  The number a decimal numeral denotes, as an exact rational: the digits before the
  first dot, plus the digits after it scaled by their count. A numeral with nothing
  before the dot, such as \<open>.5\<close>, has integer part 0, as \<open>Number('.5')\<close> has.
\<close>

definition integer_part :: "js_string \<Rightarrow> js_string" where
  "integer_part t = takeWhile (\<lambda>c. c \<noteq> dot) t"

definition fractional_part :: "js_string \<Rightarrow> js_string" where
  "fractional_part t = drop 1 (dropWhile (\<lambda>c. c \<noteq> dot) t)"

definition numeric_value :: "js_string \<Rightarrow> rat" where
  "numeric_value t =
     of_int (BigInt (integer_part t)) +
     of_int (BigInt (fractional_part t)) / 10 ^ length (fractional_part t)"


text \<open>The digits read in base ten from a starting value: the fold inside \<open>BigInt\<close>.\<close>

definition horner :: "nat \<Rightarrow> js_string \<Rightarrow> nat" where
  "horner a s = foldl (\<lambda>a c. 10 * a + digit_value c) a s"

section \<open>Values, accounts and the external interfaces\<close>

type_synonym byte = "8 word"
type_synonym bytes = "byte list"

text \<open>
  A JavaScript number is a double: here a rational, an infinity or \<open>NaN\<close> (the two
  zeros are not told apart).
\<close>

datatype js_number = NaN | Infinity | NegInfinity | Finite rat

text \<open>
  The values a field typed \<open>Uint8Array\<close>, or a provider's answer typed \<open>unknown\<close>, can
  hold at run time. A plain array holds values of any kind. \<open>JObject\<close> is an object that
  is neither an array nor a \<open>Uint8Array\<close>, named by a reference.
\<close>

datatype js_value =
    JUndefined
  | JNull
  | JBoolean bool
  | JNumber js_number
  | JBigInt int
  | JSymbol
  | JString js_string
  | JUint8Array bytes
  | JArray "js_value list"
  | JObject nat

record account =
  address :: js_string
  mnemonic :: js_string
  secretKey :: js_value

text \<open>
  The session provider: \<open>provider.request({ method })\<close> settles with a value or is
  rejected with a thrown value.
\<close>

record provider =
  request :: "js_string \<Rightarrow> thrown + js_value"

text \<open>
  A decoded signed transaction, as far as \<open>verifyWeb3AuthSignature\<close> reads it: the
  optional \<open>sig\<close>, with its optional list \<open>signers\<close> and its optional \<open>signer\<close>.
\<close>

record signature_fields =
  signers :: "bytes list option"
  signer :: "bytes option"

record signed_transaction =
  sig :: "signature_fields option"

text \<open>
  The calls into the ledger SDK and into \<open>Buffer\<close>, whose code is not part of the
  repository: each is a parameter. A call that raises returns the thrown value.
\<close>

record sdk =
  hexDecode :: "js_string \<Rightarrow> thrown + bytes"
  secretKeyToMnemonic :: "bytes \<Rightarrow> thrown + js_string"
  mnemonicToSecretKey :: "js_string \<Rightarrow> thrown + js_string \<times> bytes"
  decodeSignedTransaction :: "bytes \<Rightarrow> thrown + signed_transaction"
  decodeAddress :: "js_string \<Rightarrow> thrown + bytes"
  signTransaction :: "bytes \<Rightarrow> bytes \<Rightarrow> thrown + bytes"

section \<open>Account derivation\<close>

definition startsWith :: "js_string \<Rightarrow> js_string \<Rightarrow> bool" where
  "startsWith s p = (take (length p) s = p)"

definition cleanHexKey :: "js_string \<Rightarrow> js_string" where
  "cleanHexKey privKey = (if startsWith privKey (js ''0x'') then drop 2 privKey else privKey)"

text \<open>
  The body of the \<open>try\<close> block of \<open>getAlgorandAccount\<close>, after the provider has
  answered: the check \<open>!privKey || typeof privKey !== 'string'\<close> passes for a non-empty
  string only.
\<close>

definition deriveAccount :: "sdk \<Rightarrow> js_value \<Rightarrow> thrown + account" where
  "deriveAccount k privKey =
     (case privKey of
        JString key \<Rightarrow>
          if key = [] then
            Inl (ErrorObject (js ''Failed to retrieve private key from Web3Auth provider''))
          else
            (case hexDecode k (cleanHexKey key) of
               Inl t \<Rightarrow> Inl t
             | Inr privateKeyBytes \<Rightarrow>
                 let ed25519SecretKey = take 32 privateKeyBytes in
                 (case secretKeyToMnemonic k ed25519SecretKey of
                    Inl t \<Rightarrow> Inl t
                  | Inr mn \<Rightarrow>
                      (case mnemonicToSecretKey k mn of
                         Inl t \<Rightarrow> Inl t
                       | Inr (addr, sk) \<Rightarrow>
                           Inr \<lparr>address = addr, mnemonic = mn, secretKey = JUint8Array sk\<rparr>)))
      | _ \<Rightarrow> Inl (ErrorObject (js ''Failed to retrieve private key from Web3Auth provider'')))"

text \<open>
  \<open>getAlgorandAccount\<close> returns its result together with the requests it has sent to
  the provider, in order. A null or undefined provider is \<open>None\<close>. The \<open>catch\<close> block
  wraps an \<open>Error\<close> object and raises any other thrown value again unchanged.
\<close>

definition getAlgorandAccount :: "sdk \<Rightarrow> provider option \<Rightarrow> (error + account) \<times> js_string list" where
  "getAlgorandAccount k prov =
     (case prov of
        None \<Rightarrow> (Inl ProviderRequired, [])
      | Some p \<Rightarrow>
          let attempt =
            (case request p (js ''private_key'') of
               Inl t \<Rightarrow> Inl t
             | Inr privKey \<Rightarrow> deriveAccount k privKey)
          in ((case attempt of
                 Inl (ErrorObject m) \<Rightarrow> Inl (AccountDerivationFailed m)
               | Inl NonError \<Rightarrow> Inl (Rethrown NonError)
               | Inr a \<Rightarrow> Inr a),
              [js ''private_key'']))"

text \<open>
  The \<open>catch\<close> block inside the loop of the batch signer: the failure of one
  transaction becomes the failure of the call, with the message of an \<open>Error\<close> object
  and \<open>Unknown error\<close> for any other thrown value.
\<close>

definition signingFailure :: "thrown \<Rightarrow> error" where
  "signingFailure t =
     (case t of
        ErrorObject m \<Rightarrow> TransactionSigningFailed m
      | NonError \<Rightarrow> TransactionSigningFailed (js ''Unknown error''))"

text \<open>The function \<open>createAlgorandSigner(secretKey)\<close> returns: the loop over the
  transactions, with the blobs signed so far.\<close>

fun signLoop :: "sdk \<Rightarrow> bytes \<Rightarrow> bytes list \<Rightarrow> bytes list \<Rightarrow> error + bytes list" where
  "signLoop k sk [] signedTxns = Inr signedTxns"
| "signLoop k sk (txn # txns) signedTxns =
     (case signTransaction k txn sk of
        Inl t \<Rightarrow> Inl (signingFailure t)
      | Inr blob \<Rightarrow> signLoop k sk txns (signedTxns @ [blob]))"

definition createAlgorandSigner :: "sdk \<Rightarrow> bytes \<Rightarrow> bytes list \<Rightarrow> error + bytes list" where
  "createAlgorandSigner k sk transactions = signLoop k sk transactions []"

section \<open>The signer factory\<close>

text \<open>
  \<open>Uint8Array.from\<close> stores each element of the array through \<open>ToNumber\<close> and
  \<open>ToUint8\<close>. \<open>ToNumber\<close> is fixed by the language for undefined, null, booleans and
  numbers, and raises a \<open>TypeError\<close> for a BigInt and for a Symbol; what it gives for a
  string (the grammar of numeric literals) and for an object (its \<open>valueOf\<close> and
  \<open>toString\<close>, which may raise) is a parameter, as are the two \<open>TypeError\<close> values.
\<close>

record builtins =
  StringToNumber :: "js_string \<Rightarrow> js_number"
  ObjectToNumber :: "js_value \<Rightarrow> thrown + js_number"
  BigIntToNumberError :: thrown
  SymbolToNumberError :: thrown

fun ToNumber :: "builtins \<Rightarrow> js_value \<Rightarrow> thrown + js_number" where
  "ToNumber B JUndefined = Inr NaN"
| "ToNumber B JNull = Inr (Finite 0)"
| "ToNumber B (JBoolean b) = Inr (Finite (if b then 1 else 0))"
| "ToNumber B (JNumber n) = Inr n"
| "ToNumber B (JBigInt i) = Inl (BigIntToNumberError B)"
| "ToNumber B JSymbol = Inl (SymbolToNumberError B)"
| "ToNumber B (JString s) = Inr (StringToNumber B s)"
| "ToNumber B (JUint8Array b) = ObjectToNumber B (JUint8Array b)"
| "ToNumber B (JArray vs) = ObjectToNumber B (JArray vs)"
| "ToNumber B (JObject r) = ObjectToNumber B (JObject r)"

text \<open>
  \<open>ToUint8\<close>: \<open>NaN\<close> and the infinities give 0; a finite number is truncated towards
  zero and reduced modulo 256.
\<close>

definition truncate_number :: "rat \<Rightarrow> int" where
  "truncate_number q = (if 0 \<le> q then \<lfloor>q\<rfloor> else \<lceil>q\<rceil>)"

fun ToUint8 :: "js_number \<Rightarrow> byte" where
  "ToUint8 (Finite q) = word_of_int (truncate_number q)"
| "ToUint8 NaN = 0"
| "ToUint8 Infinity = 0"
| "ToUint8 NegInfinity = 0"

text \<open>The elements are stored in order; the first conversion that raises ends the call.\<close>

fun Uint8Array_from :: "builtins \<Rightarrow> js_value list \<Rightarrow> thrown + bytes" where
  "Uint8Array_from B [] = Inr []"
| "Uint8Array_from B (v # vs) =
     (case ToNumber B v of
        Inl t \<Rightarrow> Inl t
      | Inr n \<Rightarrow>
          (case Uint8Array_from B vs of
             Inl t \<Rightarrow> Inl t
           | Inr bs \<Rightarrow> Inr (ToUint8 n # bs)))"

text \<open>
  What \<open>algosdk.makeBasicAccountTransactionSigner({ addr, sk })\<close> closes over; the
  signing itself is the SDK's.
\<close>

record transaction_signer =
  signer_addr :: js_string
  signer_sk :: bytes

text \<open>
  \<open>sk instanceof Uint8Array\<close> and \<open>Array.isArray(sk)\<close> look at the value itself, never
  at the elements of an array; an error that \<open>Uint8Array.from\<close> raises is not caught.
\<close>

definition createWeb3AuthSigner :: "builtins \<Rightarrow> account \<Rightarrow> error + transaction_signer" where
  "createWeb3AuthSigner B acct =
     (let sk = secretKey acct;
          addr = address acct
      in case sk of
           JUint8Array b \<Rightarrow> Inr \<lparr>signer_addr = addr, signer_sk = b\<rparr>
         | JArray vs \<Rightarrow>
             (case Uint8Array_from B vs of
                Inl t \<Rightarrow> Inl (Rethrown t)
              | Inr b \<Rightarrow> Inr \<lparr>signer_addr = addr, signer_sk = b\<rparr>)
         | _ \<Rightarrow> Inl InvalidSecretKeyType)"

text \<open>
  \<open>decodedTxn.sig?.signers?.[0] ?? decodedTxn.sig?.signer\<close>: the first element of the
  signer list where there is one, else the single signer.
\<close>

definition txnSigner :: "signed_transaction \<Rightarrow> bytes option" where
  "txnSigner decodedTxn =
     (case sig decodedTxn of
        None \<Rightarrow> None
      | Some sg \<Rightarrow>
          (case signers sg of
             Some (x # xs) \<Rightarrow> Some x
           | _ \<Rightarrow> signer sg))"

definition verifyBody :: "sdk \<Rightarrow> bytes \<Rightarrow> account \<Rightarrow> thrown + bool" where
  "verifyBody k signedTransaction acct =
     (case decodeSignedTransaction k signedTransaction of
        Inl t \<Rightarrow> Inl t
      | Inr decodedTxn \<Rightarrow>
          (case txnSigner decodedTxn of
             None \<Rightarrow> Inr False
           | Some s \<Rightarrow>
               (case decodeAddress k (address acct) of
                  Inl t \<Rightarrow> Inl t
                | Inr publicKey \<Rightarrow> Inr (s = publicKey))))"

text \<open>The \<open>catch\<close> block of \<open>verifyWeb3AuthSignature\<close> turns every thrown value into
  the result \<open>false\<close>.\<close>

definition verifyWeb3AuthSignature :: "sdk \<Rightarrow> bytes \<Rightarrow> account \<Rightarrow> thrown + bool" where
  "verifyWeb3AuthSignature k signedTransaction acct =
     (case verifyBody k signedTransaction acct of
        Inl t \<Rightarrow> Inr False
      | Inr b \<Rightarrow> Inr b)"

text \<open>
  The division of two counts, each below \<open>2 ^ 53\<close> and so a double itself: the quotient
  rounded to the nearest double, a tie going to the even significand. The quotient of two
  such counts lies between \<open>2 ^ - 53\<close> and \<open>2 ^ 53\<close>, where a double is a significand of
  53 bits times a power of two. \<open>quotient_shift a b\<close> is the power of two that brings
  the quotient into the range from \<open>2 ^ 52\<close> up to \<open>2 ^ 53\<close>, where the doubles are the
  integers; \<open>round_half_even n d\<close> is the integer nearest to \<open>n / d\<close>. A division by
  zero raises nothing.
\<close>

fun floor_log2 :: "nat \<Rightarrow> nat" where
  "floor_log2 n = (if n < 2 then 0 else Suc (floor_log2 (n div 2)))"

declare floor_log2.simps [simp del]

definition round_half_even :: "nat \<Rightarrow> nat \<Rightarrow> nat" where
  "round_half_even n d =
     (let m = n div d; r = n mod d
      in if 2 * r < d then m
         else if d < 2 * r then m + 1
         else if even m then m else m + 1)"

definition quotient_shift :: "nat \<Rightarrow> nat \<Rightarrow> int" where
  "quotient_shift a b =
     (let k = 52 + int (floor_log2 b) - int (floor_log2 a)
      in if b * 2 ^ nat (- k) * 2 ^ 52 \<le> a * 2 ^ nat k then k else k + 1)"

definition double_quotient :: "nat \<Rightarrow> nat \<Rightarrow> rat" where
  "double_quotient a b =
     (let k = quotient_shift a b;
          m = round_half_even (a * 2 ^ nat k) (b * 2 ^ nat (- k))
      in of_nat m * 2 powi (- k))"

definition js_divide :: "nat \<Rightarrow> nat \<Rightarrow> js_number" where
  "js_divide a b =
     (if b = 0 then (if a = 0 then NaN else Infinity)
      else if a = 0 then Finite 0
      else Finite (double_quotient a b))"

record group_analysis =
  count :: nat
  totalSize :: nat
  averageSize :: js_number

definition analyzeTransactionGroup :: "bytes list \<Rightarrow> group_analysis" where
  "analyzeTransactionGroup transactions =
     \<lparr>count = length transactions,
      totalSize = foldl (\<lambda>sum txn. sum + length txn) 0 transactions,
      averageSize =
        js_divide (foldl (\<lambda>sum txn. sum + length txn) 0 transactions) (length transactions)\<rparr>"

section \<open>An instance of the external interfaces\<close>

text \<open>
  To run the model on concrete inputs: the decoding of pairs of hexadecimal digits, and
  stand-ins for the functions of the ledger SDK that keep its conventions (a seed of 32
  bytes, a secret key that is the seed followed by a public key of 32 bytes) without its
  cryptography.
\<close>

definition hex_value :: "code_unit \<Rightarrow> nat option" where
  "hex_value c =
     (if 0x30 \<le> c \<and> c \<le> 0x39 then Some (unat c - 48)
      else if 0x61 \<le> c \<and> c \<le> 0x66 then Some (unat c - 87)
      else if 0x41 \<le> c \<and> c \<le> 0x46 then Some (unat c - 55)
      else None)"

fun hex_bytes :: "js_string \<Rightarrow> bytes" where
  "hex_bytes (a # b # cs) =
     (case hex_value a of
        None \<Rightarrow> []
      | Some h \<Rightarrow>
          (case hex_value b of
             None \<Rightarrow> []
           | Some l \<Rightarrow> of_nat (16 * h + l) # hex_bytes cs))"
| "hex_bytes cs = []"

definition example_sdk :: sdk where
  "example_sdk =
     \<lparr>hexDecode = (\<lambda>s. Inr (hex_bytes s)),
      secretKeyToMnemonic =
        (\<lambda>seed. if length seed = 32 then Inr (map ucast seed)
                 else Inl (ErrorObject (js ''Seed length must be 32''))),
      mnemonicToSecretKey = (\<lambda>mn. Inr (mn, map ucast mn @ map (\<lambda>c. ucast c + 1) mn)),
      decodeSignedTransaction =
        (\<lambda>b. if b = [] then Inl (ErrorObject (js ''empty''))
              else Inr \<lparr>sig = Some \<lparr>signers = None, signer = Some b\<rparr>\<rparr>),
      decodeAddress = (\<lambda>a. Inr (map ucast a)),
      signTransaction =
        (\<lambda>txn sk. if txn = [] then Inl (ErrorObject (js ''empty transaction''))
                  else Inr (txn @ take 1 sk))\<rparr>"

text \<open>
  Stand-ins for the two conversions of the language that are parameters: as in
  JavaScript, a short string of decimal digits is its value and the strings \<open>a\<close> and \<open>b\<close>
  are \<open>NaN\<close>, and an object without a numeric reading is \<open>NaN\<close>; the rest of the grammar
  of numeric literals is left out.
\<close>

definition example_builtins :: builtins where
  "example_builtins =
     \<lparr>StringToNumber =
        (\<lambda>s. if s \<noteq> [] \<and> list_all is_digit s then Finite (of_int (BigInt s)) else NaN),
      ObjectToNumber = (\<lambda>v. Inr NaN),
      BigIntToNumberError = ErrorObject (js ''Cannot convert a BigInt value to a number''),
      SymbolToNumberError = ErrorObject (js ''Cannot convert a Symbol value to a number'')\<rparr>"

definition example_key :: js_string where
  "example_key = js ''0x0102030405060708090a0b0c0d0e0f101112131415161718191a1b1c1d1e1f2021''"

definition example_account :: account where
  "example_account = \<lparr>address = [1, 2], mnemonic = [], secretKey = JNull\<rparr>"

definition example_provider :: provider where
  "example_provider =
     \<lparr>request = (\<lambda>m. if m = js ''private_key'' then Inr (JString example_key) else Inl NonError)\<rparr>"

definition example_provider2 :: provider where
  "example_provider2 = \<lparr>request = (\<lambda>m. Inr (JString example_key))\<rparr>"

definition example_seed :: bytes where
  "example_seed =
     [1, 2, 3, 4, 5, 6, 7, 8, 9, 10, 11, 12, 13, 14, 15, 16,
      17, 18, 19, 20, 21, 22, 23, 24, 25, 26, 27, 28, 29, 30, 31, 32]"

definition example_public :: bytes where
  "example_public =
     [2, 3, 4, 5, 6, 7, 8, 9, 10, 11, 12, 13, 14, 15, 16, 17,
      18, 19, 20, 21, 22, 23, 24, 25, 26, 27, 28, 29, 30, 31, 32, 33]"

definition example_mnemonic :: js_string where
  "example_mnemonic =
     [1, 2, 3, 4, 5, 6, 7, 8, 9, 10, 11, 12, 13, 14, 15, 16,
      17, 18, 19, 20, 21, 22, 23, 24, 25, 26, 27, 28, 29, 30, 31, 32]"

section \<open>Digits and decimal numerals\<close>

lemma unat_digit_char: "k < 10 \<Longrightarrow> unat (digit_char k) = 48 + k"
  unfolding digit_char_def by (subst unat_of_nat) simp

lemma digit_value_digit_char: "k < 10 \<Longrightarrow> digit_value (digit_char k) = k"
  by (simp add: digit_value_def unat_digit_char)

lemma is_digit_digit_char: "k < 10 \<Longrightarrow> is_digit (digit_char k)"
  by (simp add: is_digit_def word_le_nat_alt unat_digit_char)

lemma is_digit_not_dot: "is_digit c \<Longrightarrow> c \<noteq> dot"
  by (auto simp: is_digit_def dot_def)

lemma is_digit_zero_char: "is_digit zero_char"
  by (simp add: is_digit_def zero_char_def)

lemma digit_value_zero_char: "digit_value zero_char = 0"
  by (simp add: digit_value_def zero_char_def)

lemma horner_acc: "horner a s = a * 10 ^ length s + horner 0 s"
proof (induction s arbitrary: a)
  case Nil
  then show ?case by (simp add: horner_def)
next
  case (Cons c s)
  have step: "horner b (c # s) = horner (10 * b + digit_value c) s" for b
    by (simp add: horner_def)
  have "horner a (c # s) = (10 * a + digit_value c) * 10 ^ length s + horner 0 s"
    unfolding step by (rule Cons.IH)
  moreover have "horner 0 (c # s) = digit_value c * 10 ^ length s + horner 0 s"
    unfolding step using Cons.IH [of "digit_value c"] by simp
  ultimately show ?case by (simp add: algebra_simps)
qed

lemma BigInt_horner: "BigInt s = int (horner 0 s)"
  by (simp add: BigInt_def horner_def)

lemma horner_append: "horner 0 (a @ b) = horner 0 a * 10 ^ length b + horner 0 b"
proof -
  have "horner 0 (a @ b) = horner (horner 0 a) b"
    by (simp add: horner_def)
  then show ?thesis using horner_acc [of "horner 0 a" b] by simp
qed

lemma BigInt_append: "BigInt (a @ b) = BigInt a * 10 ^ length b + BigInt b"
  by (simp add: BigInt_horner horner_append)

lemma BigInt_Nil: "BigInt [] = 0"
  by (simp add: BigInt_def)

lemma BigInt_zeros: "BigInt (replicate k zero_char) = 0"
  by (induction k) (simp_all add: BigInt_def digit_value_zero_char)

lemma BigInt_nonneg: "0 \<le> BigInt s"
  by (simp add: BigInt_def)

lemma horner_digits_of: "horner 0 (digits_of n) = n"
proof (induction n rule: digits_of.induct)
  case (1 n)
  show ?case
  proof (cases "n < 10")
    case True
    then show ?thesis
      by (subst digits_of.simps) (simp add: horner_def digit_value_digit_char)
  next
    case False
    have "horner 0 [digit_char (n mod 10)] = n mod 10"
      by (simp add: horner_def digit_value_digit_char)
    with False have "horner 0 (digits_of n) = horner 0 (digits_of (n div 10)) * 10 + n mod 10"
      by (subst digits_of.simps) (simp add: horner_append)
    then show ?thesis using 1 False by simp
  qed
qed

lemma BigInt_digits_of: "BigInt (digits_of n) = int n"
  by (simp add: BigInt_horner horner_digits_of)

lemma digits_of_digits: "list_all is_digit (digits_of n)"
proof (induction n rule: digits_of.induct)
  case (1 n)
  show ?case
    by (subst digits_of.simps) (use 1 in \<open>auto simp: is_digit_digit_char\<close>)
qed

lemma digits_of_nonempty: "digits_of n \<noteq> []"
  by (subst digits_of.simps) simp

section \<open>The accepted amounts and their parts\<close>

lemma split_no_sep: "sep \<notin> set s \<Longrightarrow> split sep s = [s]"
  by (induction s) auto

lemma split_append_sep: "sep \<notin> set a \<Longrightarrow> split sep (a @ sep # b) = a # split sep b"
  by (induction a) auto

lemma digits_no_dot: "list_all is_digit s \<Longrightarrow> dot \<notin> set s"
  using is_digit_not_dot by (auto simp: list_all_iff)

lemma not_is_digit_dot: "\<not> is_digit dot"
  using is_digit_not_dot by blast

lemma amount_format_iff:
  "amount_format t \<longleftrightarrow>
     (\<exists>ip. ip \<noteq> [] \<and> list_all is_digit ip \<and>
        (t = ip \<or> (\<exists>fp. fp \<noteq> [] \<and> list_all is_digit fp \<and> t = ip @ dot # fp)))"
proof
  assume a: "amount_format t"
  let ?ip = "takeWhile is_digit t"
  have d: "list_all is_digit ?ip"
    by (auto simp: list_all_iff dest: set_takeWhileD)
  have ne: "?ip \<noteq> []"
    using a by (simp add: amount_format_def)
  have t: "t = ?ip @ dropWhile is_digit t"
    by simp
  show "\<exists>ip. ip \<noteq> [] \<and> list_all is_digit ip \<and>
        (t = ip \<or> (\<exists>fp. fp \<noteq> [] \<and> list_all is_digit fp \<and> t = ip @ dot # fp))"
  proof (cases "dropWhile is_digit t")
    case Nil
    with t have "t = ?ip" by simp
    with d ne show ?thesis by blast
  next
    case (Cons c f)
    with a have "c = dot" "f \<noteq> []" "list_all is_digit f"
      by (simp_all add: amount_format_def)
    moreover from t Cons have "t = ?ip @ c # f" by simp
    ultimately show ?thesis using d ne by blast
  qed
next
  assume "\<exists>ip. ip \<noteq> [] \<and> list_all is_digit ip \<and>
        (t = ip \<or> (\<exists>fp. fp \<noteq> [] \<and> list_all is_digit fp \<and> t = ip @ dot # fp))"
  then obtain ip where ip: "ip \<noteq> []" "list_all is_digit ip"
    and t: "t = ip \<or> (\<exists>fp. fp \<noteq> [] \<and> list_all is_digit fp \<and> t = ip @ dot # fp)"
    by blast
  from ip have all: "\<And>x. x \<in> set ip \<Longrightarrow> is_digit x"
    by (simp add: list_all_iff)
  from t show "amount_format t"
  proof
    assume "t = ip"
    with ip all show ?thesis
      by (simp add: amount_format_def takeWhile_eq_all_conv[THEN iffD2] dropWhile_eq_Nil_conv[THEN iffD2])
  next
    assume "\<exists>fp. fp \<noteq> [] \<and> list_all is_digit fp \<and> t = ip @ dot # fp"
    then obtain fp where fp: "fp \<noteq> []" "list_all is_digit fp" "t = ip @ dot # fp"
      by blast
    have "takeWhile is_digit t = ip" "dropWhile is_digit t = dot # fp"
      using all fp(3) not_is_digit_dot by simp_all
    with ip fp show ?thesis
      by (simp add: amount_format_def)
  qed
qed

lemma parts_plain:
  assumes "list_all is_digit ip"
  shows "integer_part ip = ip" "fractional_part ip = []" "split dot ip = [ip]"
proof -
  have nd: "dot \<notin> set ip" using assms by (rule digits_no_dot)
  then have "\<And>x. x \<in> set ip \<Longrightarrow> x \<noteq> dot" by blast
  then have tw: "takeWhile (\<lambda>c. c \<noteq> dot) ip = ip" "dropWhile (\<lambda>c. c \<noteq> dot) ip = []"
    by simp_all
  show "integer_part ip = ip" "fractional_part ip = []"
    unfolding integer_part_def fractional_part_def tw by simp_all
  from nd show "split dot ip = [ip]" by (rule split_no_sep)
qed

lemma parts_dotted:
  assumes "list_all is_digit ip" "list_all is_digit fp"
  shows "integer_part (ip @ dot # fp) = ip" "fractional_part (ip @ dot # fp) = fp"
    "split dot (ip @ dot # fp) = [ip, fp]"
proof -
  have nd: "dot \<notin> set ip" "dot \<notin> set fp" using assms by (simp_all add: digits_no_dot)
  then have "\<And>x. x \<in> set ip \<Longrightarrow> x \<noteq> dot" by blast
  then show "integer_part (ip @ dot # fp) = ip" "fractional_part (ip @ dot # fp) = fp"
    by (simp_all add: integer_part_def fractional_part_def)
  from nd show "split dot (ip @ dot # fp) = [ip, fp]"
    by (simp add: split_append_sep split_no_sep)
qed

lemma amount_format_parts:
  assumes "amount_format t"
  shows "integer_part t \<noteq> []" "list_all is_digit (integer_part t)"
    "list_all is_digit (fractional_part t)"
    "element_or (split dot t) 0 (js ''0'') = integer_part t"
    "element_or (split dot t) 1 [] = fractional_part t"
proof -
  from assms obtain ip where ip: "ip \<noteq> []" "list_all is_digit ip"
    and t: "t = ip \<or> (\<exists>fp. fp \<noteq> [] \<and> list_all is_digit fp \<and> t = ip @ dot # fp)"
    unfolding amount_format_iff by blast
  from t have "integer_part t \<noteq> [] \<and> list_all is_digit (integer_part t) \<and>
    list_all is_digit (fractional_part t) \<and>
    element_or (split dot t) 0 (js ''0'') = integer_part t \<and>
    element_or (split dot t) 1 [] = fractional_part t"
  proof
    assume "t = ip"
    with ip parts_plain [of ip] show ?thesis
      by (simp add: element_or_def)
  next
    assume "\<exists>fp. fp \<noteq> [] \<and> list_all is_digit fp \<and> t = ip @ dot # fp"
    then obtain fp where fp: "list_all is_digit fp" "t = ip @ dot # fp"
      by blast
    with ip parts_dotted [of ip fp] show ?thesis
      by (simp add: element_or_def)
  qed
  then show "integer_part t \<noteq> []" "list_all is_digit (integer_part t)"
    "list_all is_digit (fractional_part t)"
    "element_or (split dot t) 0 (js ''0'') = integer_part t"
    "element_or (split dot t) 1 [] = fractional_part t"
    by blast+
qed

lemma amount_format_nonempty: "amount_format t \<Longrightarrow> t \<noteq> []"
  by (auto simp: amount_format_def)

lemma parseAmount_accepting:
  assumes "amount_format (trim s)"
  shows "parseAmount s d =
    (if d < length (fractional_part (trim s)) then Inl (TooManyDecimalPlaces d)
     else Inr (BigInt (integer_part (trim s) @ padEnd (fractional_part (trim s)) d zero_char)))"
  using assms amount_format_nonempty [OF assms] amount_format_parts(4,5) [OF assms]
  by (simp add: parseAmount_def Let_def)

lemma combined_digits:
  assumes "amount_format t"
  shows "list_all is_digit (integer_part t @ padEnd (fractional_part t) d zero_char)"
    "integer_part t @ padEnd (fractional_part t) d zero_char \<noteq> []"
  using amount_format_parts(1-3) [OF assms]
  by (auto simp: padEnd_def is_digit_zero_char list_all_iff)

lemma padEnd_length: "length s \<le> n \<Longrightarrow> length (padEnd s n c) = n"
  by (simp add: padEnd_def)

lemma BigInt_padEnd: "BigInt (padEnd s n zero_char) = BigInt s * 10 ^ (n - length s)"
  by (simp add: padEnd_def BigInt_append BigInt_zeros)

lemma scaled_value:
  assumes "length (fractional_part t) \<le> d"
  shows "rat_of_int (BigInt (integer_part t @ padEnd (fractional_part t) d zero_char)) =
    numeric_value t * 10 ^ d"
proof -
  let ?f = "fractional_part t"
  obtain k where k: "d = length ?f + k"
    using assms le_Suc_ex by blast
  have "BigInt (integer_part t @ padEnd ?f d zero_char) =
      BigInt (integer_part t) * 10 ^ d + BigInt ?f * 10 ^ k"
    using assms k by (simp add: BigInt_append padEnd_length BigInt_padEnd)
  moreover have "numeric_value t * 10 ^ d =
      rat_of_int (BigInt (integer_part t)) * 10 ^ d + rat_of_int (BigInt ?f) * 10 ^ k"
    unfolding numeric_value_def k by (simp add: algebra_simps power_add)
  ultimately show ?thesis by simp
qed

section \<open>Formatting and the value of the result\<close>

lemma js_zero_dot: "js ''0.'' = [zero_char, dot]"
  by (simp add: js_def zero_char_def dot_def)

lemma slice_to_neg: "d < length s \<Longrightarrow> 0 < d \<Longrightarrow> slice_str s 0 (- int d) = take (length s - d) s"
  by (simp add: slice_str_def Let_def nat_diff_distrib')

lemma slice_from_neg: "d < length s \<Longrightarrow> 0 < d \<Longrightarrow> slice_from s (- int d) = drop (length s - d) s"
  by (simp add: slice_from_def slice_str_def Let_def nat_diff_distrib')

lemma slice_to_zero: "slice_str s 0 (- int 0) = []"
  by (simp add: slice_str_def)

lemma slice_from_zero: "slice_from s (- int 0) = s"
  by (simp add: slice_from_def slice_str_def)

lemma toString_nonneg: "0 \<le> n \<Longrightarrow> toString n = digits_of (nat n)"
  by (simp add: toString_def)

lemma formatAmount_value:
  assumes n: "0 \<le> n" and d: "0 < d"
  shows "numeric_value (formatAmount n d) = rat_of_int n / 10 ^ d"
proof -
  let ?s = "digits_of (nat n)"
  have dig: "list_all is_digit ?s" by (rule digits_of_digits)
  have val: "BigInt ?s = n" using n by (simp add: BigInt_digits_of)
  show ?thesis
  proof (cases "length ?s \<le> d")
    case True
    let ?p = "padStart ?s d zero_char"
    have out: "formatAmount n d = [zero_char] @ dot # ?p"
      using True n by (simp add: formatAmount_def toString_nonneg js_zero_dot)
    have pd: "list_all is_digit ?p"
      using dig by (auto simp: padStart_def list_all_iff is_digit_zero_char)
    have len: "length ?p = d" using True by (simp add: padStart_def)
    have "BigInt ?p = n"
      using val by (simp add: padStart_def BigInt_append BigInt_zeros)
    moreover have "BigInt [zero_char] = 0"
      by (simp add: BigInt_def digit_value_zero_char)
    ultimately show ?thesis
      unfolding out numeric_value_def
      using parts_dotted(1,2) [of "[zero_char]" ?p] pd len
      by (simp add: is_digit_zero_char)
  next
    case False
    then have lt: "d < length ?s" by simp
    let ?k = "length ?s - d"
    have out: "formatAmount n d = take ?k ?s @ dot # drop ?k ?s"
      using False n d lt by (simp add: formatAmount_def Let_def toString_nonneg slice_to_neg slice_from_neg)
    have td: "list_all is_digit (take ?k ?s)" "list_all is_digit (drop ?k ?s)"
      using dig by (auto simp: list_all_iff dest: in_set_takeD in_set_dropD)
    have len: "length (drop ?k ?s) = d" using lt by simp
    have "BigInt (take ?k ?s @ drop ?k ?s) = BigInt (take ?k ?s) * 10 ^ d + BigInt (drop ?k ?s)"
      unfolding BigInt_append len ..
    with val have "n = BigInt (take ?k ?s) * 10 ^ d + BigInt (drop ?k ?s)"
      by simp
    then have "rat_of_int n = rat_of_int (BigInt (take ?k ?s)) * 10 ^ d + rat_of_int (BigInt (drop ?k ?s))"
      by (metis of_int_add of_int_mult of_int_numeral of_int_power)
    then show ?thesis
      unfolding out numeric_value_def parts_dotted(1,2) [OF td] len
      by (simp add: field_simps)
  qed
qed

lemma white_space_unat: "is_white_space c \<Longrightarrow> unat c < 48 \<or> 57 < unat c"
  unfolding is_white_space_def
  by (elim disjE conjE) (simp_all add: word_le_nat_alt)

lemma digit_not_white_space: "is_digit c \<Longrightarrow> \<not> is_white_space c"
  using white_space_unat [of c] by (auto simp: is_digit_def word_le_nat_alt)

lemma trim_id:
  assumes "s \<noteq> []" "\<not> is_white_space (hd s)" "\<not> is_white_space (last s)"
  shows "trim s = s"
proof -
  have "dropWhile is_white_space s = s"
    using assms(1,2) by (cases s) simp_all
  moreover have "dropWhile is_white_space (rev s) = rev s"
  proof -
    from assms(1) obtain ys y where s: "s = ys @ [y]"
      by (cases s rule: rev_cases) auto
    with assms(3) show ?thesis by simp
  qed
  ultimately show ?thesis by (simp add: trim_def)
qed

lemma amount_format_trim:
  assumes "amount_format s"
  shows "trim s = s"
proof -
  from assms obtain ip where ip: "ip \<noteq> []" "list_all is_digit ip"
    and t: "s = ip \<or> (\<exists>fp. fp \<noteq> [] \<and> list_all is_digit fp \<and> s = ip @ dot # fp)"
    unfolding amount_format_iff by blast
  from ip have h: "is_digit (hd ip)" "is_digit (last ip)"
    by (simp_all add: list_all_iff)
  from t have "s \<noteq> [] \<and> is_digit (hd s) \<and> is_digit (last s)"
  proof
    assume "s = ip"
    with ip h show ?thesis by simp
  next
    assume "\<exists>fp. fp \<noteq> [] \<and> list_all is_digit fp \<and> s = ip @ dot # fp"
    then obtain fp where fp: "fp \<noteq> []" "list_all is_digit fp" "s = ip @ dot # fp"
      by blast
    then have "is_digit (last fp)" by (simp add: list_all_iff)
    with ip h fp show ?thesis by simp
  qed
  then show ?thesis
    by (intro trim_id) (simp_all add: digit_not_white_space)
qed

lemma roundtrip_positive_decimals:
  assumes "amount_format s" "length (fractional_part s) \<le> d" "0 < d"
  shows "\<exists>n. parseAmount s d = Inr n \<and> numeric_value (formatAmount n d) = numeric_value s"
proof -
  let ?n = "BigInt (integer_part s @ padEnd (fractional_part s) d zero_char)"
  have t: "trim s = s" using assms(1) by (rule amount_format_trim)
  have p: "parseAmount s d = Inr ?n"
    using parseAmount_accepting [of s d] assms(1,2) t by simp
  have "rat_of_int ?n = numeric_value s * 10 ^ d"
    using assms(2) by (rule scaled_value)
  then have "numeric_value (formatAmount ?n d) = numeric_value s"
    using formatAmount_value [of ?n d] assms(3) BigInt_nonneg [of "integer_part s @ padEnd (fractional_part s) d zero_char"]
    by simp
  with p show ?thesis by blast
qed

lemma parseAmount_value:
  assumes "trim s = t" "amount_format t" "length (fractional_part t) \<le> d"
  shows "parseAmount s d =
    Inr (BigInt (integer_part t) * 10 ^ d + BigInt (fractional_part t) * 10 ^ (d - length (fractional_part t)))"
  using assms parseAmount_accepting [of s d]
  by (simp add: BigInt_append BigInt_padEnd padEnd_length)

lemma parseAmount_cases:
  "parseAmount s d =
    (if trim s = [] then Inl EmptyAmount
     else if \<not> amount_format (trim s) then Inl InvalidAmountFormat
     else if d < length (fractional_part (trim s)) then Inl (TooManyDecimalPlaces d)
     else Inr (BigInt (integer_part (trim s) @ padEnd (fractional_part (trim s)) d zero_char)))"
proof (cases "amount_format (trim s)")
  case True
  then show ?thesis
    using parseAmount_accepting [of s d] amount_format_nonempty [of "trim s"] by simp
next
  case False
  then show ?thesis by (simp add: parseAmount_def)
qed

lemma trim_plain:
  "trim (js ''1.5'') = js ''1.5''" "trim (js ''0.000001'') = js ''0.000001''"
  "trim (js ''12.34'') = js ''12.34''" "trim (js ''5'') = js ''5''"
  by (simp_all add: trim_def js_def is_white_space_def)

lemma formatAmount_no_decimals: "formatAmount n 0 = dot # toString n"
proof -
  have "toString n \<noteq> []"
    by (simp add: toString_def digits_of_nonempty)
  then show ?thesis
    by (simp add: formatAmount_def Let_def slice_str_def slice_from_def)
qed

section \<open>The amount codec: the claims\<close>

text \<open>
  Claim C1. The round trip \<open>formatAmount(parseAmount(s, d), d)\<close> is to denote the same
  number as \<open>s\<close>, for every \<open>s\<close> of the format with at most \<open>d\<close> fractional digits
  and every \<open>d\<close> from 0 on. For one or more decimals it does
  (\<open>roundtrip_positive_decimals\<close>). With \<open>d = 0\<close> it does not: \<open>parseAmount("5", 0)\<close>
  is 5, but \<open>formatAmount(5, 0)\<close> is \<open>".5"\<close>, since \<open>slice(0, -0)\<close> is the empty
  string and \<open>slice(-0)\<close> the whole string (\<open>formatAmount_no_decimals\<close>); the digits
  land after the decimal point and the result denotes one half, not five.
\<close>

theorem formatAmount_zero_decimals:
  "parseAmount (js ''5'') 0 = Inr 5 \<and> formatAmount 5 0 = js ''.5'' \<and>
   numeric_value (formatAmount 5 0) = 1 / 2 \<and> numeric_value (js ''5'') = 5"
proof -
  have t: "trim (js ''5'') = js ''5''"
    by (simp add: trim_def js_def is_white_space_def)
  have a: "amount_format (js ''5'')"
    by (simp add: amount_format_def js_def is_digit_def)
  have p: "integer_part (js ''5'') = js ''5''" "fractional_part (js ''5'') = []"
    by (simp_all add: integer_part_def fractional_part_def js_def dot_def)
  have b: "BigInt (js ''5'') = 5"
    by (simp add: js_def BigInt_def digit_value_def)
  have 1: "parseAmount (js ''5'') 0 = Inr 5"
    using parseAmount_value [of "js ''5''" "js ''5''" 0] t a p b by (simp add: BigInt_Nil)
  have 2: "formatAmount 5 0 = js ''.5''"
    by (simp add: formatAmount_def toString_def digits_of.simps digit_char_def slice_str_def
        slice_from_def js_def dot_def)
  have 3: "numeric_value (js ''.5'') = 1 / 2" "numeric_value (js ''5'') = 5"
    by (simp_all add: numeric_value_def integer_part_def fractional_part_def js_def dot_def
        BigInt_def digit_value_def)
  from 1 2 3 show ?thesis by simp
qed

text \<open>
  Claim C2. An input that \<open>parseAmount\<close> accepts gives exactly the integer read from
  the digits of the integer part followed by the fractional part padded on the right with
  zeros to \<open>decimals\<close> digits: the result is the value of the input times
  \<open>10 ^ decimals\<close>, with no rounding. \<open>parseAmount("1.5", 6)\<close> is 1500000 and
  \<open>parseAmount("0.000001", 6)\<close> is 1.
\<close>

theorem parseAmount_exact:
  "(parseAmount s d = Inr n \<longrightarrow>
      n = BigInt (integer_part (trim s) @ padEnd (fractional_part (trim s)) d zero_char) \<and>
      length (padEnd (fractional_part (trim s)) d zero_char) = d \<and>
      list_all is_digit (integer_part (trim s) @ padEnd (fractional_part (trim s)) d zero_char) \<and>
      0 \<le> n \<and>
      rat_of_int n = numeric_value (trim s) * 10 ^ d) \<and>
   parseAmount (js ''1.5'') 6 = Inr 1500000 \<and>
   parseAmount (js ''0.000001'') 6 = Inr 1"
proof (intro conjI impI)
  assume r: "parseAmount s d = Inr n"
  let ?t = "trim s"
  from r have a: "amount_format ?t" and le: "length (fractional_part ?t) \<le> d"
    and n: "n = BigInt (integer_part ?t @ padEnd (fractional_part ?t) d zero_char)"
    by (simp_all add: parseAmount_cases split: if_splits)
  from n show "n = BigInt (integer_part ?t @ padEnd (fractional_part ?t) d zero_char)" .
  from le show "length (padEnd (fractional_part ?t) d zero_char) = d"
    by (rule padEnd_length)
  from a show "list_all is_digit (integer_part ?t @ padEnd (fractional_part ?t) d zero_char)"
    by (rule combined_digits)
  from n show "0 \<le> n" by (simp add: BigInt_nonneg)
  from le n show "rat_of_int n = numeric_value ?t * 10 ^ d"
    by (simp add: scaled_value)
next
  have "amount_format (js ''1.5'')"
    by (simp add: amount_format_def js_def is_digit_def dot_def)
  moreover have "integer_part (js ''1.5'') = js ''1''" "fractional_part (js ''1.5'') = js ''5''"
    by (simp_all add: integer_part_def fractional_part_def js_def dot_def)
  moreover have "BigInt (js ''1'') = 1" "BigInt (js ''5'') = 5"
    by (simp_all add: js_def BigInt_def digit_value_def)
  ultimately show "parseAmount (js ''1.5'') 6 = Inr 1500000"
    using parseAmount_value [of "js ''1.5''" "js ''1.5''" 6] trim_plain(1) by (simp add: js_def)
next
  have "amount_format (js ''0.000001'')"
    by (simp add: amount_format_def js_def is_digit_def dot_def)
  moreover have "integer_part (js ''0.000001'') = js ''0''"
    "fractional_part (js ''0.000001'') = js ''000001''"
    by (simp_all add: integer_part_def fractional_part_def js_def dot_def)
  moreover have "BigInt (js ''0'') = 0" "BigInt (js ''000001'') = 1"
    by (simp_all add: js_def BigInt_def digit_value_def)
  ultimately show "parseAmount (js ''0.000001'') 6 = Inr 1"
    using parseAmount_value [of "js ''0.000001''" "js ''0.000001''" 6] trim_plain(2)
    by (simp add: js_def)
qed

theorem parseAmount_exact_witness:
  "parseAmount (js ''12.34'') 3 = Inr 12340 \<and>
   rat_of_int 12340 = numeric_value (trim (js ''12.34'')) * 10 ^ 3"
proof -
  have "amount_format (js ''12.34'')"
    by (simp add: amount_format_def js_def is_digit_def dot_def)
  moreover have "integer_part (js ''12.34'') = js ''12''" "fractional_part (js ''12.34'') = js ''34''"
    by (simp_all add: integer_part_def fractional_part_def js_def dot_def)
  moreover have "BigInt (js ''12'') = 12" "BigInt (js ''34'') = 34"
    by (simp_all add: js_def BigInt_def digit_value_def)
  ultimately have h: "parseAmount (js ''12.34'') 3 = Inr 12340"
    using parseAmount_value [of "js ''12.34''" "js ''12.34''" 3] trim_plain(3) by (simp add: js_def)
  with parseAmount_exact [of "js ''12.34''" 3 12340] show ?thesis
    by blast
qed

text \<open>
  Claim C3. The three checks of \<open>parseAmount\<close> are made in the order the claim lists
  them. It fails with EmptyAmount exactly when the input is blank after trimming; among
  the other inputs it fails with InvalidAmountFormat exactly when the trimmed input does
  not match the format as a whole (a leading sign, an exponent, a thousands separator, a
  second decimal point and letters are all rejected); among the inputs of the format it
  fails with TooManyDecimalPlaces exactly when the fractional part has more digits than
  \<open>decimals\<close>; on every other input it returns a value.
\<close>

theorem parseAmount_failures:
  "(parseAmount s d = Inl EmptyAmount \<longleftrightarrow> trim s = []) \<and>
   (parseAmount s d = Inl InvalidAmountFormat \<longleftrightarrow> trim s \<noteq> [] \<and> \<not> amount_format (trim s)) \<and>
   (parseAmount s d = Inl (TooManyDecimalPlaces d) \<longleftrightarrow>
      amount_format (trim s) \<and> d < length (fractional_part (trim s))) \<and>
   ((\<exists>n. parseAmount s d = Inr n) \<longleftrightarrow>
      amount_format (trim s) \<and> length (fractional_part (trim s)) \<le> d) \<and>
   parseAmount [] 6 = Inl EmptyAmount \<and>
   parseAmount (js ''1.2345678'') 6 = Inl (TooManyDecimalPlaces 6) \<and>
   parseAmount (js ''abc'') 6 = Inl InvalidAmountFormat \<and>
   parseAmount (js ''+1'') 6 = Inl InvalidAmountFormat \<and>
   parseAmount (js ''-1'') 6 = Inl InvalidAmountFormat \<and>
   parseAmount (js ''1e5'') 6 = Inl InvalidAmountFormat \<and>
   parseAmount (js ''1,000'') 6 = Inl InvalidAmountFormat \<and>
   parseAmount (js ''1.2.3'') 6 = Inl InvalidAmountFormat"
proof -
  have ne: "amount_format (trim s) \<Longrightarrow> trim s \<noteq> []"
    by (rule amount_format_nonempty)
  have g1: "parseAmount s d = Inl EmptyAmount \<longleftrightarrow> trim s = []"
    by (simp add: parseAmount_cases)
  have g2: "parseAmount s d = Inl InvalidAmountFormat \<longleftrightarrow> trim s \<noteq> [] \<and> \<not> amount_format (trim s)"
    by (simp add: parseAmount_cases)
  have g3: "parseAmount s d = Inl (TooManyDecimalPlaces d) \<longleftrightarrow>
      amount_format (trim s) \<and> d < length (fractional_part (trim s))"
    using ne by (auto simp: parseAmount_cases)
  have g4: "(\<exists>n. parseAmount s d = Inr n) \<longleftrightarrow>
      amount_format (trim s) \<and> length (fractional_part (trim s)) \<le> d"
    using ne by (auto simp: parseAmount_cases)
  have e1: "parseAmount [] 6 = Inl EmptyAmount"
    by (simp add: parseAmount_cases trim_def)
  have "trim (js ''1.2345678'') = js ''1.2345678''"
    by (simp add: trim_def js_def is_white_space_def)
  moreover have "amount_format (js ''1.2345678'')"
    by (simp add: amount_format_def js_def is_digit_def dot_def)
  moreover have "fractional_part (js ''1.2345678'') = js ''2345678''"
    by (simp add: fractional_part_def js_def dot_def)
  moreover have "length (js ''2345678'') = 7" "js ''1.2345678'' \<noteq> []"
    by (simp_all add: js_def)
  ultimately have e2: "parseAmount (js ''1.2345678'') 6 = Inl (TooManyDecimalPlaces 6)"
    by (simp add: parseAmount_cases)
  have t: "trim (js ''abc'') = js ''abc''" "trim (js ''+1'') = js ''+1''"
    "trim (js ''-1'') = js ''-1''" "trim (js ''1e5'') = js ''1e5''"
    "trim (js ''1,000'') = js ''1,000''" "trim (js ''1.2.3'') = js ''1.2.3''"
    by (simp_all add: trim_def js_def is_white_space_def)
  have f: "\<not> amount_format (js ''abc'')" "\<not> amount_format (js ''+1'')"
    "\<not> amount_format (js ''-1'')" "\<not> amount_format (js ''1e5'')"
    "\<not> amount_format (js ''1,000'')" "\<not> amount_format (js ''1.2.3'')"
    by (simp_all add: amount_format_def js_def is_digit_def dot_def)
  have z: "js ''abc'' \<noteq> []" "js ''+1'' \<noteq> []" "js ''-1'' \<noteq> []" "js ''1e5'' \<noteq> []"
    "js ''1,000'' \<noteq> []" "js ''1.2.3'' \<noteq> []"
    by (simp_all add: js_def)
  have e3: "parseAmount (js ''abc'') 6 = Inl InvalidAmountFormat"
    "parseAmount (js ''+1'') 6 = Inl InvalidAmountFormat"
    "parseAmount (js ''-1'') 6 = Inl InvalidAmountFormat"
    "parseAmount (js ''1e5'') 6 = Inl InvalidAmountFormat"
    "parseAmount (js ''1,000'') 6 = Inl InvalidAmountFormat"
    "parseAmount (js ''1.2.3'') 6 = Inl InvalidAmountFormat"
    using t f z by (simp_all add: parseAmount_cases)
  from g1 g2 g3 g4 e1 e2 e3 show ?thesis by blast
qed

theorem parseAmount_failures_witness:
  "parseAmount (js '' 1.25 '') 1 = Inl (TooManyDecimalPlaces 1) \<and>
   parseAmount (js '' 1.25 '') 2 = Inr 125 \<and>
   parseAmount (js '' 1.2x '') 2 = Inl InvalidAmountFormat \<and>
   parseAmount (js ''   '') 2 = Inl EmptyAmount"
proof -
  have t: "trim (js '' 1.25 '') = js ''1.25''" "trim (js '' 1.2x '') = js ''1.2x''"
    "trim (js ''   '') = []"
    by (simp_all add: trim_def js_def is_white_space_def)
  have a: "amount_format (js ''1.25'')" "\<not> amount_format (js ''1.2x'')" "js ''1.2x'' \<noteq> []"
    by (simp_all add: amount_format_def js_def is_digit_def dot_def)
  have p: "integer_part (js ''1.25'') = js ''1''" "fractional_part (js ''1.25'') = js ''25''"
    by (simp_all add: integer_part_def fractional_part_def js_def dot_def)
  have l: "length (js ''25'') = 2" by (simp add: js_def)
  have b: "BigInt (js ''1'') = 1" "BigInt (js ''25'') = 25"
    by (simp_all add: js_def BigInt_def digit_value_def)
  have 1: "parseAmount (js '' 1.25 '') 1 = Inl (TooManyDecimalPlaces 1)"
    using parseAmount_failures [of "js '' 1.25 ''" 1] t a p l by simp
  have "\<exists>n. parseAmount (js '' 1.25 '') 2 = Inr n"
    using parseAmount_failures [of "js '' 1.25 ''" 2] t a p l by simp
  then have 2: "parseAmount (js '' 1.25 '') 2 = Inr 125"
    using parseAmount_value [of "js '' 1.25 ''" "js ''1.25''" 2] t a p l b by simp
  have 3: "parseAmount (js '' 1.2x '') 2 = Inl InvalidAmountFormat"
    using parseAmount_failures [of "js '' 1.2x ''" 2] t a by simp
  have 4: "parseAmount (js ''   '') 2 = Inl EmptyAmount"
    using parseAmount_failures [of "js ''   ''" 2] t by simp
  from 1 2 3 4 show ?thesis by simp
qed

section \<open>Account derivation: the claims\<close>

lemma cleanHexKey_prefixed: "cleanHexKey (js ''0x'' @ h) = h"
  by (simp add: cleanHexKey_def startsWith_def js_def)

lemma cleanHexKey_plain: "\<not> startsWith h (js ''0x'') \<Longrightarrow> cleanHexKey h = h"
  by (simp add: cleanHexKey_def)

lemma getAlgorandAccount_answered:
  "request p (js ''private_key'') = Inr v \<Longrightarrow>
   fst (getAlgorandAccount k (Some p)) =
     (case deriveAccount k v of
        Inl (ErrorObject m) \<Rightarrow> Inl (AccountDerivationFailed m)
      | Inl NonError \<Rightarrow> Inl (Rethrown NonError)
      | Inr a \<Rightarrow> Inr a)"
  by (simp add: getAlgorandAccount_def)

lemma getAlgorandAccount_success:
  assumes "request p (js ''private_key'') = Inr (JString key)" "key \<noteq> []"
    and "hexDecode k (cleanHexKey key) = Inr privateKeyBytes"
    and "secretKeyToMnemonic k (take 32 privateKeyBytes) = Inr mn"
    and "mnemonicToSecretKey k mn = Inr (addr, sk)"
  shows "fst (getAlgorandAccount k (Some p)) =
    Inr \<lparr>address = addr, mnemonic = mn, secretKey = JUint8Array sk\<rparr>"
  using assms by (simp add: getAlgorandAccount_answered deriveAccount_def)

lemma example_clean:
  "cleanHexKey example_key =
     js ''0102030405060708090a0b0c0d0e0f101112131415161718191a1b1c1d1e1f2021''"
  by (simp add: example_key_def cleanHexKey_def startsWith_def js_def)

lemma example_decoded:
  "hex_bytes (js ''0102030405060708090a0b0c0d0e0f101112131415161718191a1b1c1d1e1f2021'') =
     example_seed @ [33]"
  by (simp add: js_def hex_value_def example_seed_def)

lemma example_take: "take 32 (example_seed @ [33]) = example_seed"
  by (simp add: example_seed_def)

lemma example_to_mnemonic: "secretKeyToMnemonic example_sdk example_seed = Inr example_mnemonic"
  by (simp add: example_sdk_def example_seed_def example_mnemonic_def)

lemma example_to_secret:
  "mnemonicToSecretKey example_sdk example_mnemonic =
     Inr (example_mnemonic, example_seed @ example_public)"
  by (simp add: example_sdk_def example_seed_def example_mnemonic_def example_public_def)

lemma example_key_nonempty: "example_key \<noteq> []"
  by (simp add: example_key_def js_def)

text \<open>
  Claim C4. \<open>getAlgorandAccount\<close> strips one leading \<open>0x\<close> from the key string
  where there is one, decodes the rest as hexadecimal and hands exactly the first 32
  decoded bytes to the SDK as the seed; more than 32 decoded bytes are no error. The
  mnemonic of the account is the SDK's mnemonic of that seed, and its address and secret
  key are what the SDK derives from that mnemonic. With the key pair the ledger's
  convention prescribes (the seed followed by a public key of 32 bytes), the secret key
  has 64 bytes, the seed first and the public key last.
\<close>

theorem getAlgorandAccount_derivation:
  "cleanHexKey (js ''0x'' @ h) = h \<and>
   (\<not> startsWith h (js ''0x'') \<longrightarrow> cleanHexKey h = h) \<and>
   (request p (js ''private_key'') = Inr (JString key) \<and> key \<noteq> [] \<and>
    hexDecode k (cleanHexKey key) = Inr privateKeyBytes \<and> 32 \<le> length privateKeyBytes \<and>
    secretKeyToMnemonic k (take 32 privateKeyBytes) = Inr mn \<and>
    mnemonicToSecretKey k mn = Inr (addr, take 32 privateKeyBytes @ pk) \<and> length pk = 32 \<longrightarrow>
      (\<exists>sk. fst (getAlgorandAccount k (Some p)) =
               Inr \<lparr>address = addr, mnemonic = mn, secretKey = JUint8Array sk\<rparr> \<and>
            length sk = 64 \<and> take 32 sk = take 32 privateKeyBytes \<and> drop 32 sk = pk \<and>
            length (take 32 privateKeyBytes) = 32))"
proof (intro conjI impI)
  show "cleanHexKey (js ''0x'' @ h) = h" by (rule cleanHexKey_prefixed)
  show "cleanHexKey h = h" if "\<not> startsWith h (js ''0x'')"
    using that by (rule cleanHexKey_plain)
next
  assume a: "request p (js ''private_key'') = Inr (JString key) \<and> key \<noteq> [] \<and>
    hexDecode k (cleanHexKey key) = Inr privateKeyBytes \<and> 32 \<le> length privateKeyBytes \<and>
    secretKeyToMnemonic k (take 32 privateKeyBytes) = Inr mn \<and>
    mnemonicToSecretKey k mn = Inr (addr, take 32 privateKeyBytes @ pk) \<and> length pk = 32"
  let ?sk = "take 32 privateKeyBytes @ pk"
  have "fst (getAlgorandAccount k (Some p)) =
      Inr \<lparr>address = addr, mnemonic = mn, secretKey = JUint8Array ?sk\<rparr>"
    using a by (intro getAlgorandAccount_success [of p key k privateKeyBytes]) simp_all
  moreover have "length ?sk = 64" "take 32 ?sk = take 32 privateKeyBytes" "drop 32 ?sk = pk"
    "length (take 32 privateKeyBytes) = 32"
    using a by simp_all
  ultimately show "\<exists>sk. fst (getAlgorandAccount k (Some p)) =
               Inr \<lparr>address = addr, mnemonic = mn, secretKey = JUint8Array sk\<rparr> \<and>
            length sk = 64 \<and> take 32 sk = take 32 privateKeyBytes \<and> drop 32 sk = pk \<and>
            length (take 32 privateKeyBytes) = 32"
    by blast
qed

theorem getAlgorandAccount_derivation_witness:
  "fst (getAlgorandAccount example_sdk (Some example_provider)) =
     Inr \<lparr>address = example_mnemonic, mnemonic = example_mnemonic,
          secretKey = JUint8Array (example_seed @ example_public)\<rparr> \<and>
   length (example_seed @ example_public) = 64"
proof -
  have r: "request example_provider (js ''private_key'') = Inr (JString example_key)"
    by (simp add: example_provider_def)
  have d: "hexDecode example_sdk (cleanHexKey example_key) = Inr (example_seed @ [33])"
    by (simp add: example_clean example_decoded example_sdk_def)
  have l: "32 \<le> length (example_seed @ [33])" "length example_public = 32"
    by (simp_all add: example_seed_def example_public_def)
  from getAlgorandAccount_derivation [of _ example_provider example_key example_sdk
      "example_seed @ [33]" example_mnemonic example_mnemonic example_public]
    r d l example_key_nonempty example_to_mnemonic example_to_secret
  obtain sk where sk: "fst (getAlgorandAccount example_sdk (Some example_provider)) =
      Inr \<lparr>address = example_mnemonic, mnemonic = example_mnemonic, secretKey = JUint8Array sk\<rparr>"
    "length sk = 64" "take 32 sk = take 32 (example_seed @ [33])" "drop 32 sk = example_public"
    unfolding example_take by blast
  from sk(3,4) have "sk = example_seed @ example_public"
    unfolding example_take by (metis append_take_drop_id)
  with sk(1,2) show ?thesis by simp
qed

text \<open>
  Claim C5. The derived account depends on the provider through the key string alone:
  two derivations whose providers answer the key request with the same string give the
  same result, hence the same address, mnemonic and secret key.
\<close>

theorem getAlgorandAccount_deterministic:
  "request p1 (js ''private_key'') = Inr (JString key) \<and>
   request p2 (js ''private_key'') = Inr (JString key) \<longrightarrow>
     fst (getAlgorandAccount k (Some p1)) = fst (getAlgorandAccount k (Some p2)) \<and>
     (\<forall>a1 a2. fst (getAlgorandAccount k (Some p1)) = Inr a1 \<and>
        fst (getAlgorandAccount k (Some p2)) = Inr a2 \<longrightarrow>
          address a1 = address a2 \<and> mnemonic a1 = mnemonic a2 \<and> secretKey a1 = secretKey a2)"
  by (auto simp: getAlgorandAccount_answered)

theorem getAlgorandAccount_deterministic_witness:
  "fst (getAlgorandAccount example_sdk (Some example_provider)) =
     fst (getAlgorandAccount example_sdk (Some example_provider2)) \<and>
   fst (getAlgorandAccount example_sdk (Some example_provider2)) =
     Inr \<lparr>address = example_mnemonic, mnemonic = example_mnemonic,
          secretKey = JUint8Array (example_seed @ example_public)\<rparr> \<and>
   request example_provider [] \<noteq> request example_provider2 []"
proof -
  have r: "request example_provider (js ''private_key'') = Inr (JString example_key)"
    "request example_provider2 (js ''private_key'') = Inr (JString example_key)"
    by (simp_all add: example_provider_def example_provider2_def)
  have d: "hexDecode example_sdk (cleanHexKey example_key) = Inr (example_seed @ [33])"
    by (simp add: example_clean example_decoded example_sdk_def)
  have 1: "fst (getAlgorandAccount example_sdk (Some example_provider)) =
     fst (getAlgorandAccount example_sdk (Some example_provider2))"
    using getAlgorandAccount_deterministic [of example_provider example_key example_provider2 example_sdk] r
    by blast
  have 2: "fst (getAlgorandAccount example_sdk (Some example_provider2)) =
     Inr \<lparr>address = example_mnemonic, mnemonic = example_mnemonic,
          secretKey = JUint8Array (example_seed @ example_public)\<rparr>"
  proof -
    have m: "secretKeyToMnemonic example_sdk (take 32 (example_seed @ [33])) = Inr example_mnemonic"
      unfolding example_take by (rule example_to_mnemonic)
    show ?thesis
      by (rule getAlgorandAccount_success [OF r(2) example_key_nonempty d m example_to_secret])
  qed
  have 3: "request example_provider [] \<noteq> request example_provider2 []"
    by (simp add: example_provider_def example_provider2_def js_def)
  from 1 2 3 show ?thesis by blast
qed

lemma getAlgorandAccount_requests:
  "snd (getAlgorandAccount k (Some p)) = [js ''private_key'']"
  by (simp add: getAlgorandAccount_def Let_def)

lemma getAlgorandAccount_wraps:
  "request p (js ''private_key'') = Inl (ErrorObject m) \<Longrightarrow>
   fst (getAlgorandAccount k (Some p)) = Inl (AccountDerivationFailed m)"
  by (simp add: getAlgorandAccount_def)

text \<open>
  Claim C6. With a null or undefined provider \<open>getAlgorandAccount\<close> fails with
  ProviderRequired and has sent no request; the failure is raised outside the \<open>try\<close>
  block, so it is not an AccountDerivationFailed. (With a provider there is exactly one
  request, \<open>getAlgorandAccount_requests\<close>, and a failure of it is wrapped,
  \<open>getAlgorandAccount_wraps\<close>.)
\<close>

theorem getAlgorandAccount_null_provider:
  "getAlgorandAccount k None = (Inl ProviderRequired, []) \<and>
   snd (getAlgorandAccount k None) = [] \<and>
   (\<forall>m. fst (getAlgorandAccount k None) \<noteq> Inl (AccountDerivationFailed m))"
  by (simp add: getAlgorandAccount_def)

section \<open>The signer factory: the claims\<close>

lemma Uint8Array_from_numbers:
  "Uint8Array_from B (map JNumber ns) = Inr (map ToUint8 ns)"
  by (induction ns) simp_all

lemma Uint8Array_from_strings:
  "Uint8Array_from B (map JString ss) = Inr (map (\<lambda>s. ToUint8 (StringToNumber B s)) ss)"
  by (induction ss) simp_all

lemma Uint8Array_from_length:
  "Uint8Array_from B vs = Inr bs \<Longrightarrow> length bs = length vs"
  by (induction vs arbitrary: bs) (auto split: sum.splits)

lemma createWeb3AuthSigner_array:
  "secretKey acct = JArray vs \<Longrightarrow>
   createWeb3AuthSigner B acct =
     (case Uint8Array_from B vs of
        Inl t \<Rightarrow> Inl (Rethrown t)
      | Inr b \<Rightarrow> Inr \<lparr>signer_addr = address acct, signer_sk = b\<rparr>)"
  by (simp add: createWeb3AuthSigner_def)

lemma truncate_examples:
  "truncate_number 0 = 0" "truncate_number 1 = 1" "truncate_number 2 = 2"
  "truncate_number 255 = 255" "truncate_number 256 = 256" "truncate_number (- 1) = - 1"
  "truncate_number (17 / 10) = 1" "truncate_number (- (17 / 10)) = - 1"
  by (simp_all add: truncate_number_def floor_eq_iff ceiling_eq_iff)

lemma example_strings:
  "StringToNumber example_builtins (js ''a'') = NaN"
  "StringToNumber example_builtins (js ''b'') = NaN"
  by (simp_all add: example_builtins_def js_def is_digit_def)

text \<open>
  Claim C7 as stated: a secret key that is a \<open>Uint8Array\<close> is taken as it is, a plain
  array of numbers is converted to bytes, and every other value, a string among them, fails
  with InvalidSecretKeyType. The source tests \<open>Array.isArray\<close> only, so an array that
  does not hold numbers is converted as well: for the array of the strings \<open>a\<close> and
  \<open>b\<close> the call returns a signer whose key is two zero bytes, and for an array of a
  boolean and null a signer whose key is \<open>[1, 0]\<close>.
\<close>

theorem createWeb3AuthSigner_string_array:
  "createWeb3AuthSigner example_builtins
     \<lparr>address = js ''A'', mnemonic = [],
      secretKey = JArray [JString (js ''a''), JString (js ''b'')]\<rparr> =
     Inr \<lparr>signer_addr = js ''A'', signer_sk = [0, 0]\<rparr> \<and>
   createWeb3AuthSigner example_builtins
     \<lparr>address = js ''A'', mnemonic = [],
      secretKey = JArray [JString (js ''a''), JString (js ''b'')]\<rparr> \<noteq>
     Inl InvalidSecretKeyType \<and>
   createWeb3AuthSigner example_builtins
     \<lparr>address = js ''A'', mnemonic = [], secretKey = JArray [JBoolean True, JNull]\<rparr> =
     Inr \<lparr>signer_addr = js ''A'', signer_sk = [1, 0]\<rparr>"
  by (simp add: createWeb3AuthSigner_def example_strings truncate_examples)

text \<open>
  Claim C7, amended. \<open>createWeb3AuthSigner\<close> takes a secret key that is a
  \<open>Uint8Array\<close> as it is. It accepts every plain array, whatever its elements, and
  converts it with \<open>Uint8Array.from\<close> when the signer is made: an array of numbers
  becomes the bytes of its elements (truncated, modulo 256, with 0 for \<open>NaN\<close> and the
  infinities), an array of strings the bytes of their numeric readings, and on an array
  the call fails only where the conversion of an element raises, as for a BigInt, with
  the error raised there and never with InvalidSecretKeyType. It fails with
  InvalidSecretKeyType exactly when the secret key is neither a \<open>Uint8Array\<close> nor an
  array, a string among them, and it returns a signer in the first two cases only.
\<close>

theorem createWeb3AuthSigner_kinds:
  "(secretKey acct = JUint8Array b \<longrightarrow>
      createWeb3AuthSigner B acct = Inr \<lparr>signer_addr = address acct, signer_sk = b\<rparr>) \<and>
   (secretKey acct = JArray vs \<longrightarrow>
      createWeb3AuthSigner B acct =
        (case Uint8Array_from B vs of
           Inl t \<Rightarrow> Inl (Rethrown t)
         | Inr b \<Rightarrow> Inr \<lparr>signer_addr = address acct, signer_sk = b\<rparr>) \<and>
      createWeb3AuthSigner B acct \<noteq> Inl InvalidSecretKeyType) \<and>
   (secretKey acct = JArray (map JNumber ns) \<longrightarrow>
      createWeb3AuthSigner B acct =
        Inr \<lparr>signer_addr = address acct, signer_sk = map ToUint8 ns\<rparr>) \<and>
   (secretKey acct = JArray (map JString ss) \<longrightarrow>
      createWeb3AuthSigner B acct =
        Inr \<lparr>signer_addr = address acct,
             signer_sk = map (\<lambda>s. ToUint8 (StringToNumber B s)) ss\<rparr>) \<and>
   (secretKey acct = JArray (pre @ JBigInt i # post) \<and> Uint8Array_from B pre = Inr bs \<longrightarrow>
      createWeb3AuthSigner B acct = Inl (Rethrown (BigIntToNumberError B))) \<and>
   (secretKey acct = JString s \<longrightarrow> createWeb3AuthSigner B acct = Inl InvalidSecretKeyType) \<and>
   (createWeb3AuthSigner B acct = Inl InvalidSecretKeyType \<longleftrightarrow>
      (\<forall>b. secretKey acct \<noteq> JUint8Array b) \<and> (\<forall>vs. secretKey acct \<noteq> JArray vs)) \<and>
   (createWeb3AuthSigner B acct = Inr sg \<longrightarrow>
      (\<exists>b. secretKey acct = JUint8Array b) \<or> (\<exists>vs. secretKey acct = JArray vs)) \<and>
   (secretKey acct = JArray (pre @ JSymbol # post) \<and> Uint8Array_from B pre = Inr bs \<longrightarrow>
      createWeb3AuthSigner B acct = Inl (Rethrown (SymbolToNumberError B))) \<and>
   (secretKey acct = JArray [JBoolean True, JBoolean False, JNull, JUndefined] \<longrightarrow>
      createWeb3AuthSigner B acct =
        Inr \<lparr>signer_addr = address acct, signer_sk = [1, 0, 0, 0]\<rparr>) \<and>
   ToUint8 NaN = 0 \<and> ToUint8 Infinity = 0 \<and> ToUint8 NegInfinity = 0 \<and>
   uint (ToUint8 (Finite q)) = (if 0 \<le> q then \<lfloor>q\<rfloor> else \<lceil>q\<rceil>) mod 256"
proof -
  have 1: "secretKey acct = JUint8Array b \<longrightarrow>
      createWeb3AuthSigner B acct = Inr \<lparr>signer_addr = address acct, signer_sk = b\<rparr>"
    by (simp add: createWeb3AuthSigner_def)
  have 2: "secretKey acct = JArray vs \<longrightarrow>
      createWeb3AuthSigner B acct =
        (case Uint8Array_from B vs of
           Inl t \<Rightarrow> Inl (Rethrown t)
         | Inr b \<Rightarrow> Inr \<lparr>signer_addr = address acct, signer_sk = b\<rparr>) \<and>
      createWeb3AuthSigner B acct \<noteq> Inl InvalidSecretKeyType"
    by (auto simp: createWeb3AuthSigner_array split: sum.splits)
  have 3: "secretKey acct = JArray (map JNumber ns) \<longrightarrow>
      createWeb3AuthSigner B acct =
        Inr \<lparr>signer_addr = address acct, signer_sk = map ToUint8 ns\<rparr>"
    by (simp add: createWeb3AuthSigner_array Uint8Array_from_numbers)
  have 4: "secretKey acct = JArray (map JString ss) \<longrightarrow>
      createWeb3AuthSigner B acct =
        Inr \<lparr>signer_addr = address acct,
             signer_sk = map (\<lambda>s. ToUint8 (StringToNumber B s)) ss\<rparr>"
    by (simp add: createWeb3AuthSigner_array Uint8Array_from_strings)
  have bi: "Uint8Array_from B pre = Inr bs \<Longrightarrow>
      Uint8Array_from B (pre @ JBigInt i # post) = Inl (BigIntToNumberError B)" for pre bs
    by (induction pre arbitrary: bs) (auto split: sum.splits)
  have 5: "secretKey acct = JArray (pre @ JBigInt i # post) \<and> Uint8Array_from B pre = Inr bs \<longrightarrow>
      createWeb3AuthSigner B acct = Inl (Rethrown (BigIntToNumberError B))"
    using bi [of pre bs] by (auto simp: createWeb3AuthSigner_array)
  have 6: "secretKey acct = JString s \<longrightarrow> createWeb3AuthSigner B acct = Inl InvalidSecretKeyType"
    by (simp add: createWeb3AuthSigner_def)
  have 7: "createWeb3AuthSigner B acct = Inl InvalidSecretKeyType \<longleftrightarrow>
      (\<forall>b. secretKey acct \<noteq> JUint8Array b) \<and> (\<forall>vs. secretKey acct \<noteq> JArray vs)"
    by (cases "secretKey acct") (auto simp: createWeb3AuthSigner_def split: sum.splits)
  have 8: "createWeb3AuthSigner B acct = Inr sg \<longrightarrow>
      (\<exists>b. secretKey acct = JUint8Array b) \<or> (\<exists>vs. secretKey acct = JArray vs)"
    by (cases "secretKey acct") (auto simp: createWeb3AuthSigner_def)
  have sy: "Uint8Array_from B pre = Inr bs \<Longrightarrow>
      Uint8Array_from B (pre @ JSymbol # post) = Inl (SymbolToNumberError B)" for pre bs
    by (induction pre arbitrary: bs) (auto split: sum.splits)
  have 9: "secretKey acct = JArray (pre @ JSymbol # post) \<and> Uint8Array_from B pre = Inr bs \<longrightarrow>
      createWeb3AuthSigner B acct = Inl (Rethrown (SymbolToNumberError B))"
    using sy [of pre bs] by (auto simp: createWeb3AuthSigner_array)
  have 10: "secretKey acct = JArray [JBoolean True, JBoolean False, JNull, JUndefined] \<longrightarrow>
      createWeb3AuthSigner B acct =
        Inr \<lparr>signer_addr = address acct, signer_sk = [1, 0, 0, 0]\<rparr>"
    by (simp add: createWeb3AuthSigner_array truncate_examples)
  have 11: "ToUint8 NaN = 0" "ToUint8 Infinity = 0" "ToUint8 NegInfinity = 0"
    "uint (ToUint8 (Finite q)) = (if 0 \<le> q then \<lfloor>q\<rfloor> else \<lceil>q\<rceil>) mod 256"
    by (simp_all add: truncate_number_def uint_word_of_int_eq take_bit_eq_mod)
  from 1 2 3 4 5 6 7 8 9 10 11 show ?thesis by blast
qed

theorem createWeb3AuthSigner_kinds_witness:
  "createWeb3AuthSigner example_builtins
     \<lparr>address = js ''A'', mnemonic = [], secretKey = JUint8Array [7, 8]\<rparr> =
     Inr \<lparr>signer_addr = js ''A'', signer_sk = [7, 8]\<rparr> \<and>
   createWeb3AuthSigner example_builtins
     \<lparr>address = js ''A'', mnemonic = [],
      secretKey = JArray [JNumber (Finite 1), JNumber (Finite 255), JNumber (Finite 256),
        JNumber (Finite (- 1)), JNumber (Finite (17 / 10)), JNumber NaN]\<rparr> =
     Inr \<lparr>signer_addr = js ''A'', signer_sk = [1, 255, 0, 255, 1, 0]\<rparr> \<and>
   createWeb3AuthSigner example_builtins
     \<lparr>address = js ''A'', mnemonic = [],
      secretKey = JArray [JNumber (Finite 1), JBigInt 1, JNumber (Finite 2)]\<rparr> =
     Inl (Rethrown (ErrorObject (js ''Cannot convert a BigInt value to a number''))) \<and>
   createWeb3AuthSigner example_builtins
     \<lparr>address = js ''A'', mnemonic = [], secretKey = JString (js ''abc'')\<rparr> =
     Inl InvalidSecretKeyType \<and>
   createWeb3AuthSigner example_builtins
     \<lparr>address = js ''A'', mnemonic = [], secretKey = JNull\<rparr> =
     Inl InvalidSecretKeyType"
proof -
  let ?A = "js ''A''"
  have "createWeb3AuthSigner example_builtins
     \<lparr>address = ?A, mnemonic = [], secretKey = JUint8Array [7, 8]\<rparr> =
     Inr \<lparr>signer_addr = ?A, signer_sk = [7, 8]\<rparr>"
    using createWeb3AuthSigner_kinds
      [of "\<lparr>address = ?A, mnemonic = [], secretKey = JUint8Array [7, 8]\<rparr>" "[7, 8]"]
    by simp
  moreover have "createWeb3AuthSigner example_builtins
     \<lparr>address = ?A, mnemonic = [],
      secretKey = JArray [JNumber (Finite 1), JNumber (Finite 255), JNumber (Finite 256),
        JNumber (Finite (- 1)), JNumber (Finite (17 / 10)), JNumber NaN]\<rparr> =
     Inr \<lparr>signer_addr = ?A, signer_sk = [1, 255, 0, 255, 1, 0]\<rparr>"
    using createWeb3AuthSigner_kinds
      [of "\<lparr>address = ?A, mnemonic = [],
        secretKey = JArray [JNumber (Finite 1), JNumber (Finite 255), JNumber (Finite 256),
          JNumber (Finite (- 1)), JNumber (Finite (17 / 10)), JNumber NaN]\<rparr>" _ example_builtins _
        "[Finite 1, Finite 255, Finite 256, Finite (- 1), Finite (17 / 10), NaN]"]
    by (simp add: truncate_examples)
  moreover have "createWeb3AuthSigner example_builtins
     \<lparr>address = ?A, mnemonic = [],
      secretKey = JArray [JNumber (Finite 1), JBigInt 1, JNumber (Finite 2)]\<rparr> =
     Inl (Rethrown (ErrorObject (js ''Cannot convert a BigInt value to a number'')))"
    using createWeb3AuthSigner_kinds
      [of "\<lparr>address = ?A, mnemonic = [],
        secretKey = JArray [JNumber (Finite 1), JBigInt 1, JNumber (Finite 2)]\<rparr>" _ example_builtins _
        _ _ "[JNumber (Finite 1)]" 1 "[JNumber (Finite 2)]" "[1]"]
    by (simp add: truncate_examples example_builtins_def)
  moreover have "createWeb3AuthSigner example_builtins
     \<lparr>address = ?A, mnemonic = [], secretKey = JString (js ''abc'')\<rparr> =
     Inl InvalidSecretKeyType"
    using createWeb3AuthSigner_kinds
      [of "\<lparr>address = ?A, mnemonic = [], secretKey = JString (js ''abc'')\<rparr>" _ example_builtins]
    by simp
  moreover have "createWeb3AuthSigner example_builtins
     \<lparr>address = ?A, mnemonic = [], secretKey = JNull\<rparr> =
     Inl InvalidSecretKeyType"
    using createWeb3AuthSigner_kinds
      [of "\<lparr>address = ?A, mnemonic = [], secretKey = JNull\<rparr>" _ example_builtins]
    by simp
  ultimately show ?thesis by blast
qed

lemma txnSigner_cases:
  "sig d = None \<Longrightarrow> txnSigner d = None"
  "sig d = Some sg \<Longrightarrow> signers sg = Some (x # xs) \<Longrightarrow> txnSigner d = Some x"
  "sig d = Some sg \<Longrightarrow> signers sg = Some [] \<Longrightarrow> txnSigner d = signer sg"
  "sig d = Some sg \<Longrightarrow> signers sg = None \<Longrightarrow> txnSigner d = signer sg"
  by (simp_all add: txnSigner_def)

text \<open>
  Claim C8. \<open>verifyWeb3AuthSignature\<close> always returns a boolean and never raises. It
  returns false when the signed transaction does not decode, when the decoded
  transaction has neither a first element in its signer list nor a single signer, when
  the account's address does not decode, and when the signer's public key differs from
  the account's; it returns true exactly when the extracted signer's public key is the
  account's decoded public key, byte for byte.
\<close>

theorem verifyWeb3AuthSignature_total:
  "(\<exists>b. verifyWeb3AuthSignature k stx acct = Inr b) \<and>
   (decodeSignedTransaction k stx = Inl t \<longrightarrow> verifyWeb3AuthSignature k stx acct = Inr False) \<and>
   (decodeSignedTransaction k stx = Inr d \<and> txnSigner d = None \<longrightarrow>
      verifyWeb3AuthSignature k stx acct = Inr False) \<and>
   (decodeSignedTransaction k stx = Inr d \<and> txnSigner d = Some s \<and>
    decodeAddress k (address acct) = Inl t \<longrightarrow>
      verifyWeb3AuthSignature k stx acct = Inr False) \<and>
   (decodeSignedTransaction k stx = Inr d \<and> txnSigner d = Some s \<and>
    decodeAddress k (address acct) = Inr publicKey \<longrightarrow>
      verifyWeb3AuthSignature k stx acct = Inr (s = publicKey)) \<and>
   (verifyWeb3AuthSignature k stx acct = Inr True \<longleftrightarrow>
      (\<exists>d s. decodeSignedTransaction k stx = Inr d \<and> txnSigner d = Some s \<and>
         decodeAddress k (address acct) = Inr s)) \<and>
   (txnSigner d = None \<longleftrightarrow>
      sig d = None \<or>
      (\<exists>sg. sig d = Some sg \<and> signer sg = None \<and>
         (signers sg = None \<or> signers sg = Some []))) \<and>
   (sig d = Some sg \<and> signers sg = Some (x # xs) \<longrightarrow> txnSigner d = Some x)"
proof -
  have 1: "\<exists>b. verifyWeb3AuthSignature k stx acct = Inr b"
    by (cases "verifyBody k stx acct") (auto simp: verifyWeb3AuthSignature_def)
  have 2: "decodeSignedTransaction k stx = Inl t \<longrightarrow> verifyWeb3AuthSignature k stx acct = Inr False"
    by (simp add: verifyWeb3AuthSignature_def verifyBody_def)
  have 3: "decodeSignedTransaction k stx = Inr d \<and> txnSigner d = None \<longrightarrow>
      verifyWeb3AuthSignature k stx acct = Inr False"
    by (simp add: verifyWeb3AuthSignature_def verifyBody_def)
  have 4: "decodeSignedTransaction k stx = Inr d \<and> txnSigner d = Some s \<and>
    decodeAddress k (address acct) = Inl t \<longrightarrow>
      verifyWeb3AuthSignature k stx acct = Inr False"
    by (simp add: verifyWeb3AuthSignature_def verifyBody_def)
  have 5: "decodeSignedTransaction k stx = Inr d \<and> txnSigner d = Some s \<and>
    decodeAddress k (address acct) = Inr publicKey \<longrightarrow>
      verifyWeb3AuthSignature k stx acct = Inr (s = publicKey)"
    by (simp add: verifyWeb3AuthSignature_def verifyBody_def)
  have 6: "verifyWeb3AuthSignature k stx acct = Inr True \<longleftrightarrow>
      (\<exists>d s. decodeSignedTransaction k stx = Inr d \<and> txnSigner d = Some s \<and>
         decodeAddress k (address acct) = Inr s)"
    by (auto simp: verifyWeb3AuthSignature_def verifyBody_def split: sum.splits option.splits)
  have 7: "txnSigner d = None \<longleftrightarrow>
      sig d = None \<or>
      (\<exists>sg. sig d = Some sg \<and> signer sg = None \<and>
         (signers sg = None \<or> signers sg = Some []))"
    by (auto simp: txnSigner_def split: option.splits list.splits)
  have 8: "sig d = Some sg \<and> signers sg = Some (x # xs) \<longrightarrow> txnSigner d = Some x"
    by (auto simp: txnSigner_def)
  from 1 2 3 4 5 6 7 8 show ?thesis by blast
qed

theorem verifyWeb3AuthSignature_total_witness:
  "verifyWeb3AuthSignature example_sdk [1, 2] example_account = Inr True \<and>
   verifyWeb3AuthSignature example_sdk [3] example_account = Inr False \<and>
   verifyWeb3AuthSignature example_sdk [] example_account = Inr False"
proof -
  have d: "decodeSignedTransaction example_sdk [1, 2] =
      Inr \<lparr>sig = Some \<lparr>signers = None, signer = Some [1, 2]\<rparr>\<rparr>"
    "decodeSignedTransaction example_sdk [3] =
      Inr \<lparr>sig = Some \<lparr>signers = None, signer = Some [3]\<rparr>\<rparr>"
    "decodeSignedTransaction example_sdk [] = Inl (ErrorObject (js ''empty''))"
    by (simp_all add: example_sdk_def)
  have s: "txnSigner \<lparr>sig = Some \<lparr>signers = None, signer = Some [1, 2]\<rparr>\<rparr> = Some [1, 2]"
    "txnSigner \<lparr>sig = Some \<lparr>signers = None, signer = Some [3]\<rparr>\<rparr> = Some [3]"
    by (simp_all add: txnSigner_def)
  have a: "decodeAddress example_sdk (address example_account) = Inr [1, 2]"
    by (simp add: example_sdk_def example_account_def)
  have "verifyWeb3AuthSignature example_sdk [1, 2] example_account = Inr True"
    using verifyWeb3AuthSignature_total [of example_sdk "[1, 2]" example_account _ _ "[1, 2]" "[1, 2]"]
      d(1) s(1) a by simp
  moreover have "verifyWeb3AuthSignature example_sdk [3] example_account = Inr False"
    using verifyWeb3AuthSignature_total [of example_sdk "[3]" example_account _ _ "[3]" "[1, 2]"]
      d(2) s(2) a by simp
  moreover have "verifyWeb3AuthSignature example_sdk [] example_account = Inr False"
    using verifyWeb3AuthSignature_total [of example_sdk "[]" example_account "ErrorObject (js ''empty'')"]
      d(3) by simp
  ultimately show ?thesis by simp
qed

section \<open>Batch signing\<close>

lemma signLoop_all:
  "list_all2 (\<lambda>t b. signTransaction k t sk = Inr b) txns blobs \<Longrightarrow>
   signLoop k sk txns acc = Inr (acc @ blobs)"
proof (induction txns arbitrary: acc blobs)
  case Nil
  then show ?case by simp
next
  case (Cons t txns)
  then obtain b bs where b: "blobs = b # bs" "signTransaction k t sk = Inr b"
    "list_all2 (\<lambda>t b. signTransaction k t sk = Inr b) txns bs"
    by (auto simp: list_all2_Cons1)
  with Cons.IH [of bs "acc @ [b]"] show ?case by simp
qed

lemma signLoop_Inr:
  "signLoop k sk txns acc = Inr out \<Longrightarrow>
   \<exists>blobs. out = acc @ blobs \<and> list_all2 (\<lambda>t b. signTransaction k t sk = Inr b) txns blobs"
proof (induction txns arbitrary: acc)
  case Nil
  then show ?case by simp
next
  case (Cons t txns)
  from Cons.prems obtain b where b: "signTransaction k t sk = Inr b"
    and r: "signLoop k sk txns (acc @ [b]) = Inr out"
    by (auto split: sum.splits)
  from Cons.IH [OF r] obtain bs where "out = (acc @ [b]) @ bs"
    "list_all2 (\<lambda>t b. signTransaction k t sk = Inr b) txns bs"
    by blast
  with b show ?case by (intro exI [of _ "b # bs"]) simp
qed

lemma signLoop_fail:
  "list_all2 (\<lambda>t b. signTransaction k t sk = Inr b) pre blobs \<Longrightarrow>
   signTransaction k t sk = Inl e \<Longrightarrow>
   signLoop k sk (pre @ t # post) acc = Inl (signingFailure e)"
proof (induction pre arbitrary: acc blobs)
  case Nil
  then show ?case by simp
next
  case (Cons p pre)
  then obtain b bs where b: "signTransaction k p sk = Inr b"
    "list_all2 (\<lambda>t b. signTransaction k t sk = Inr b) pre bs"
    by (auto simp: list_all2_Cons1)
  with Cons.IH [of bs "acc @ [b]"] Cons.prems(2) show ?case by simp
qed

lemma example_sign:
  "signTransaction example_sdk txn sk =
     (if txn = [] then Inl (ErrorObject (js ''empty transaction'')) else Inr (txn @ take 1 sk))"
  by (simp add: example_sdk_def)

text \<open>
  Claim C9. The batch signer returns blobs exactly when every transaction signs, and
  then the blobs are the signed transactions in the order of the input, one for each.
  When the transactions before one sign and that one fails, the call fails with
  TransactionSigningFailed, whatever follows it in the list, and returns none of the
  blobs signed before: the failure carries the message of the \<open>Error\<close> object that the
  signing of that transaction raised, or \<open>Unknown error\<close> where it raised another
  value, after the words \<open>Failed to sign transaction: \<close>.
\<close>

theorem createAlgorandSigner_batch:
  "(createAlgorandSigner k sk txns = Inr blobs \<longleftrightarrow>
      list_all2 (\<lambda>t b. signTransaction k t sk = Inr b) txns blobs) \<and>
   (createAlgorandSigner k sk txns = Inr blobs \<longrightarrow>
      length blobs = length txns \<and>
      (\<forall>i < length txns. signTransaction k (txns ! i) sk = Inr (blobs ! i))) \<and>
   (list_all2 (\<lambda>t b. signTransaction k t sk = Inr b) pre ok \<and>
    signTransaction k t sk = Inl (ErrorObject m) \<longrightarrow>
      createAlgorandSigner k sk (pre @ t # post) = Inl (TransactionSigningFailed m)) \<and>
   (list_all2 (\<lambda>t b. signTransaction k t sk = Inr b) pre ok \<and>
    signTransaction k t sk = Inl NonError \<longrightarrow>
      createAlgorandSigner k sk (pre @ t # post) =
        Inl (TransactionSigningFailed (js ''Unknown error''))) \<and>
   message (TransactionSigningFailed m) = js ''Failed to sign transaction: '' @ m"
proof -
  have a: "createAlgorandSigner k sk txns = Inr blobs \<longleftrightarrow>
      list_all2 (\<lambda>t b. signTransaction k t sk = Inr b) txns blobs"
    using signLoop_all [of k sk txns blobs "[]"] signLoop_Inr [of k sk txns "[]" blobs]
    by (auto simp: createAlgorandSigner_def)
  have b: "createAlgorandSigner k sk txns = Inr blobs \<longrightarrow>
      length blobs = length txns \<and>
      (\<forall>i < length txns. signTransaction k (txns ! i) sk = Inr (blobs ! i))"
    unfolding a by (auto simp: list_all2_conv_all_nth)
  have c: "list_all2 (\<lambda>t b. signTransaction k t sk = Inr b) pre ok \<and>
    signTransaction k t sk = Inl (ErrorObject m) \<longrightarrow>
      createAlgorandSigner k sk (pre @ t # post) = Inl (TransactionSigningFailed m)"
    using signLoop_fail [of k sk pre ok t "ErrorObject m" post "[]"]
    by (simp add: createAlgorandSigner_def signingFailure_def)
  have d: "list_all2 (\<lambda>t b. signTransaction k t sk = Inr b) pre ok \<and>
    signTransaction k t sk = Inl NonError \<longrightarrow>
      createAlgorandSigner k sk (pre @ t # post) =
        Inl (TransactionSigningFailed (js ''Unknown error''))"
    using signLoop_fail [of k sk pre ok t NonError post "[]"]
    by (simp add: createAlgorandSigner_def signingFailure_def)
  have e: "message (TransactionSigningFailed m) = js ''Failed to sign transaction: '' @ m"
    by simp
  from a b c d e show ?thesis by blast
qed

theorem createAlgorandSigner_batch_witness:
  "createAlgorandSigner example_sdk [9] [[1], [2, 3]] = Inr [[1, 9], [2, 3, 9]] \<and>
   createAlgorandSigner example_sdk [9] ([[1]] @ [] # [[2, 3]]) =
     Inl (TransactionSigningFailed (js ''empty transaction''))"
proof -
  have 1: "list_all2 (\<lambda>t b. signTransaction example_sdk t [9] = Inr b) [[1], [2, 3]] [[1, 9], [2, 3, 9]]"
    by (simp add: example_sign)
  have 2: "list_all2 (\<lambda>t b. signTransaction example_sdk t [9] = Inr b) [[1]] [[1, 9]]"
    by (simp add: example_sign)
  have 3: "signTransaction example_sdk [] [9] = Inl (ErrorObject (js ''empty transaction''))"
    by (simp add: example_sign)
  from createAlgorandSigner_batch [of example_sdk "[9]" "[[1], [2, 3]]" "[[1, 9], [2, 3, 9]]"] 1
  have "createAlgorandSigner example_sdk [9] [[1], [2, 3]] = Inr [[1, 9], [2, 3, 9]]"
    by blast
  moreover from createAlgorandSigner_batch [of example_sdk "[9]" _ _ "[[1]]" "[[1, 9]]" "[]"
      "js ''empty transaction''" "[[2, 3]]"] 2 3
  have "createAlgorandSigner example_sdk [9] ([[1]] @ [] # [[2, 3]]) =
      Inl (TransactionSigningFailed (js ''empty transaction''))"
    by blast
  ultimately show ?thesis by blast
qed

section \<open>The analysis of a transaction group\<close>

lemma foldl_sizes: "foldl (\<lambda>sum txn. sum + length txn) a txs = a + sum_list (map length txs)"
  by (induction txs arbitrary: a) simp_all

lemma floor_log2_bounds: "0 < n \<Longrightarrow> 2 ^ floor_log2 n \<le> n \<and> n < 2 * 2 ^ floor_log2 n"
proof (induction n rule: floor_log2.induct)
  case (1 n)
  show ?case
  proof (cases "n < 2")
    case True
    with 1(2) show ?thesis by (subst (1 2) floor_log2.simps) simp
  next
    case False
    then have "0 < n div 2" by simp
    with 1(1) False have "2 ^ floor_log2 (n div 2) \<le> n div 2 \<and> n div 2 < 2 * 2 ^ floor_log2 (n div 2)"
      by simp
    with False show ?thesis by (subst (1 2) floor_log2.simps) auto
  qed
qed

lemma round_half_even_near:
  assumes "0 < d"
  shows "2 * (round_half_even n d * d) \<le> 2 * n + d \<and> 2 * n \<le> 2 * (round_half_even n d * d) + d"
proof -
  have n: "n = n div d * d + n mod d" by simp
  define m r where "m = n div d" and "r = n mod d"
  have "n = m * d + r" "r < d" using assms by (simp_all add: m_def r_def)
  then show ?thesis
    unfolding round_half_even_def Let_def m_def [symmetric] r_def [symmetric]
    by (auto simp: algebra_simps)
qed

lemma round_half_even_tie:
  assumes "0 < d"
  shows "even (round_half_even n d) \<or>
    (2 * (round_half_even n d * d) < 2 * n + d \<and> 2 * n < 2 * (round_half_even n d * d) + d)"
proof -
  define m r where "m = n div d" and "r = n mod d"
  have "n = m * d + r" "r < d" using assms by (simp_all add: m_def r_def)
  then show ?thesis
    unfolding round_half_even_def Let_def m_def [symmetric] r_def [symmetric]
    by (auto simp: algebra_simps)
qed

lemma round_half_even_range:
  assumes "0 < d" "d * L \<le> n" "n < d * U"
  shows "L \<le> round_half_even n d \<and> round_half_even n d \<le> U"
proof -
  have "L \<le> n div d"
    using assms(1,2) by (metis div_le_mono nonzero_mult_div_cancel_left less_numeral_extra(3))
  moreover have "n div d < U"
    using assms(1,3) by (simp add: less_mult_imp_div_less mult.commute)
  ultimately show ?thesis
    by (auto simp: round_half_even_def Let_def)
qed

lemma scaled_ratio:
  "rat_of_nat (a * 2 ^ nat k) / rat_of_nat (b * 2 ^ nat (- k)) = of_nat a / of_nat b * 2 powi k"
  by (cases "0 \<le> k") (simp_all add: power_int_def field_simps)

lemma rat_floor_log2:
  assumes "0 < n"
  shows "(2::rat) powi int (floor_log2 n) \<le> of_nat n" "rat_of_nat n < 2 powi (int (floor_log2 n) + 1)"
proof -
  from floor_log2_bounds [OF assms]
  have "2 ^ floor_log2 n \<le> n" "n < 2 * 2 ^ floor_log2 n" by simp_all
  then have "rat_of_nat (2 ^ floor_log2 n) \<le> of_nat n" "rat_of_nat n < of_nat (2 * 2 ^ floor_log2 n)"
    by (simp_all only: of_nat_le_iff of_nat_less_iff)
  then show "(2::rat) powi int (floor_log2 n) \<le> of_nat n" "rat_of_nat n < 2 powi (int (floor_log2 n) + 1)"
    by (simp_all add: power_int_add)
qed

lemma two_powi_pos: "0 < (2::rat) powi k"
  by simp

lemma shift_test:
  assumes "0 < b"
  shows "b * 2 ^ nat (- k) * 2 ^ 52 \<le> a * 2 ^ nat k \<longleftrightarrow>
    2 ^ 52 \<le> rat_of_nat a / of_nat b * 2 powi k"
proof -
  have d: "0 < rat_of_nat (b * 2 ^ nat (- k))" using assms by simp
  have "(b * 2 ^ nat (- k) * 2 ^ 52 \<le> a * 2 ^ nat k) =
      (rat_of_nat (b * 2 ^ nat (- k) * 2 ^ 52) \<le> rat_of_nat (a * 2 ^ nat k))"
    by (simp only: of_nat_le_iff)
  also have "\<dots> = (2 ^ 52 * rat_of_nat (b * 2 ^ nat (- k)) \<le> rat_of_nat (a * 2 ^ nat k))"
    by (simp add: mult.commute)
  also have "\<dots> = (2 ^ 52 \<le> rat_of_nat (a * 2 ^ nat k) / rat_of_nat (b * 2 ^ nat (- k)))"
    using d by (simp only: pos_le_divide_eq)
  finally show ?thesis by (simp only: scaled_ratio)
qed

lemma quotient_shift_normal:
  assumes "0 < a" "0 < b"
  defines "x \<equiv> rat_of_nat a / of_nat b * 2 powi quotient_shift a b"
  shows "2 ^ 52 \<le> x" "x < 2 ^ 53"
proof -
  let ?la = "int (floor_log2 a)" and ?lb = "int (floor_log2 b)"
  let ?k = "52 + ?lb - ?la"
  let ?q = "rat_of_nat a / of_nat b"
  have A: "(2::rat) powi ?la \<le> of_nat a" "rat_of_nat a < 2 powi (?la + 1)"
    using rat_floor_log2 [OF assms(1)] by simp_all
  have B: "(2::rat) powi ?lb \<le> of_nat b" "rat_of_nat b < 2 powi (?lb + 1)"
    using rat_floor_log2 [OF assms(2)] by simp_all
  have pos: "0 < rat_of_nat a" "0 < rat_of_nat b" using assms by simp_all
  have "?q < 2 powi (?la + 1) / 2 powi ?lb"
    using A(2) B(1) pos by (intro frac_less) (simp_all add: two_powi_pos)
  then have "?q * 2 powi ?k < 2 powi (?la + 1) / 2 powi ?lb * 2 powi ?k"
    by (intro mult_strict_right_mono two_powi_pos)
  also have "2 powi (?la + 1) / 2 powi ?lb * 2 powi ?k = (2::rat) powi (?la + 1 - ?lb + ?k)"
    by (simp add: power_int_diff power_int_add)
  also have "?la + 1 - ?lb + ?k = 53" by simp
  finally have up: "?q * 2 powi ?k < 2 ^ 53" by simp
  have "2 powi ?la / 2 powi (?lb + 1) < ?q"
    using A(1) B(2) pos by (intro frac_less2) (simp_all add: two_powi_pos)
  then have "2 powi ?la / 2 powi (?lb + 1) * 2 powi ?k < ?q * 2 powi ?k"
    by (intro mult_strict_right_mono two_powi_pos)
  moreover have "2 powi ?la / 2 powi (?lb + 1) * 2 powi ?k = (2::rat) powi (?la - (?lb + 1) + ?k)"
    by (simp add: power_int_diff power_int_add)
  moreover have "?la - (?lb + 1) + ?k = 51" by simp
  ultimately have lo: "2 ^ 51 < ?q * 2 powi ?k" by simp
  show "2 ^ 52 \<le> x" "x < 2 ^ 53"
  proof -
    have "2 ^ 52 \<le> x \<and> x < 2 ^ 53"
    proof (cases "b * 2 ^ nat (- ?k) * 2 ^ 52 \<le> a * 2 ^ nat ?k")
      case True
      then have "quotient_shift a b = ?k" by (simp add: quotient_shift_def Let_def)
      moreover from True have "2 ^ 52 \<le> ?q * 2 powi ?k"
        using shift_test [OF assms(2), of ?k a] by simp
      ultimately show ?thesis using up by (simp add: x_def)
    next
      case False
      then have k: "quotient_shift a b = ?k + 1" by (simp add: quotient_shift_def Let_def)
      from False have lt: "?q * 2 powi ?k < 2 ^ 52"
        using shift_test [OF assms(2), of ?k a] by simp
      have p: "(2::rat) powi (j + 1) = 2 powi j * 2" for j
        by (simp add: power_int_add)
      define y where "y = ?q * 2 powi ?k"
      have "x = y * 2"
        unfolding x_def k p y_def by simp
      moreover have "y < 2 ^ 52" "2 ^ 51 < y"
        using lt lo by (simp_all only: y_def)
      ultimately show ?thesis by simp
    qed
    then show "2 ^ 52 \<le> x" "x < 2 ^ 53" by simp_all
  qed
qed

lemma within_half:
  fixes P N D :: rat
  shows "2 * P \<le> 2 * N + D \<Longrightarrow> 2 * N \<le> 2 * P + D \<Longrightarrow> \<bar>P - N\<bar> * 2 \<le> D"
  by (cases "P < N") (simp_all add: abs_if)

lemma within_half_strict:
  fixes P N D :: rat
  shows "2 * P < 2 * N + D \<Longrightarrow> 2 * N < 2 * P + D \<Longrightarrow> \<bar>P - N\<bar> * 2 < D"
  by (cases "P < N") (simp_all add: abs_if)

lemma round_half_even_rat:
  fixes n d :: nat
  defines "e \<equiv> rat_of_nat (round_half_even n d) - of_nat n / of_nat d"
  assumes "0 < d"
  shows "\<bar>e\<bar> * 2 \<le> 1" "even (round_half_even n d) \<or> \<bar>e\<bar> * 2 < 1"
proof -
  let ?m = "round_half_even n d"
  note pos = assms(2)
  define M N D where "M = rat_of_nat ?m" and "N = rat_of_nat n" and "D = rat_of_nat d"
  have D: "0 < D" using pos by (simp add: D_def)
  have e: "e * D = M * D - N"
    using D by (simp add: e_def M_def N_def D_def field_simps)
  have abs: "\<bar>e\<bar> * D = \<bar>M * D - N\<bar>"
    using D e by (metis abs_mult abs_of_pos)
  from round_half_even_near [OF pos, of n]
  have "rat_of_nat (2 * (?m * d)) \<le> rat_of_nat (2 * n + d)"
    "rat_of_nat (2 * n) \<le> rat_of_nat (2 * (?m * d) + d)"
    by (simp_all only: of_nat_le_iff)
  then have "2 * (M * D) \<le> 2 * N + D" "2 * N \<le> 2 * (M * D) + D"
    by (simp_all add: M_def N_def D_def)
  then have "\<bar>M * D - N\<bar> * 2 \<le> D" by (rule within_half)
  then have "\<bar>e\<bar> * 2 * D \<le> 1 * D" using abs by (simp add: mult.commute mult.left_commute)
  then show "\<bar>e\<bar> * 2 \<le> 1" using D by (simp only: mult_le_cancel_right_pos)
  show "even ?m \<or> \<bar>e\<bar> * 2 < 1"
  proof (cases "even ?m")
    case True
    then show ?thesis by simp
  next
    case False
    with round_half_even_tie [OF pos, of n]
    have "2 * (?m * d) < 2 * n + d" "2 * n < 2 * (?m * d) + d"
      by simp_all
    then have "rat_of_nat (2 * (?m * d)) < rat_of_nat (2 * n + d)"
      "rat_of_nat (2 * n) < rat_of_nat (2 * (?m * d) + d)"
      by (simp_all only: of_nat_less_iff)
    then have "2 * (M * D) < 2 * N + D" "2 * N < 2 * (M * D) + D"
      by (simp_all add: M_def N_def D_def)
    then have "\<bar>M * D - N\<bar> * 2 < D" by (rule within_half_strict)
    then have "\<bar>e\<bar> * 2 * D < 1 * D" using abs by (simp add: mult.commute mult.left_commute)
    then have "\<bar>e\<bar> * 2 < 1" using D by (simp only: mult_less_cancel_right_pos)
    then show ?thesis by simp
  qed
qed

lemma shift_bound:
  assumes "0 < b"
  shows "b * 2 ^ nat (- k) * c \<le> a * 2 ^ nat k \<longleftrightarrow>
    rat_of_nat c \<le> rat_of_nat a / of_nat b * 2 powi k"
proof -
  have d: "0 < rat_of_nat (b * 2 ^ nat (- k))" using assms by simp
  have "(b * 2 ^ nat (- k) * c \<le> a * 2 ^ nat k) =
      (rat_of_nat (b * 2 ^ nat (- k) * c) \<le> rat_of_nat (a * 2 ^ nat k))"
    by (simp only: of_nat_le_iff)
  also have "\<dots> = (rat_of_nat c * rat_of_nat (b * 2 ^ nat (- k)) \<le> rat_of_nat (a * 2 ^ nat k))"
    by (simp add: mult.commute)
  also have "\<dots> = (rat_of_nat c \<le> rat_of_nat (a * 2 ^ nat k) / rat_of_nat (b * 2 ^ nat (- k)))"
    using d by (simp only: pos_le_divide_eq)
  finally show ?thesis by (simp only: scaled_ratio)
qed

lemma double_quotient_rounds:
  assumes "0 < a" "0 < b"
  shows "\<exists>m k. double_quotient a b = of_nat m * 2 powi k \<and> 2 ^ 52 \<le> m \<and> m \<le> 2 ^ 53 \<and>
    \<bar>rat_of_nat m * 2 powi k - rat_of_nat a / rat_of_nat b\<bar> * 2 \<le> 2 powi k \<and>
    (even m \<or> \<bar>rat_of_nat m * 2 powi k - rat_of_nat a / rat_of_nat b\<bar> * 2 < 2 powi k)"
proof -
  define K where "K = quotient_shift a b"
  define n d where "n = a * 2 ^ nat K" and "d = b * 2 ^ nat (- K)"
  define m where "m = round_half_even n d"
  define q where "q = rat_of_nat a / of_nat b"
  define x where "x = q * 2 powi K"
  define u where "u = (2::rat) powi (- K)"
  have d: "0 < d" using assms(2) by (simp add: d_def)
  have u: "0 < u" by (simp add: u_def)
  have xnd: "rat_of_nat n / of_nat d = x"
    unfolding n_def d_def x_def q_def by (rule scaled_ratio)
  have qx: "q = x * u"
    unfolding x_def u_def by (simp add: power_int_minus)
  have r: "double_quotient a b = of_nat m * u"
    by (simp add: double_quotient_def Let_def K_def m_def n_def d_def u_def)
  from quotient_shift_normal [OF assms] have x: "2 ^ 52 \<le> x" "x < 2 ^ 53"
    by (simp_all add: x_def q_def K_def)
  have "d * 2 ^ 52 \<le> n"
    using shift_bound [OF assms(2), of K "2 ^ 52" a] x(1)
    by (simp add: n_def d_def x_def q_def)
  moreover have "n < d * 2 ^ 53"
    using shift_bound [OF assms(2), of K "2 ^ 53" a] x(2)
    by (simp add: n_def d_def x_def q_def not_le [symmetric])
  ultimately have m: "2 ^ 52 \<le> m" "m \<le> 2 ^ 53"
    using round_half_even_range [OF d, of "2 ^ 52" n "2 ^ 53"] by (simp_all add: m_def)
  define e where "e = rat_of_nat m - x"
  from round_half_even_rat [OF d, of n]
  have e: "\<bar>e\<bar> * 2 \<le> 1" "even m \<or> \<bar>e\<bar> * 2 < 1"
    by (simp_all add: m_def [symmetric] xnd e_def)
  have "of_nat m * u - q = e * u"
    by (simp add: qx e_def algebra_simps)
  then have a: "\<bar>of_nat m * u - q\<bar> * 2 = \<bar>e\<bar> * 2 * u"
    using u by (simp add: abs_mult)
  have 1: "\<bar>of_nat m * u - q\<bar> * 2 \<le> u"
    unfolding a using e(1) u by (metis mult_le_cancel_right_pos mult_1)
  have 2: "even m \<or> \<bar>of_nat m * u - q\<bar> * 2 < u"
    unfolding a using e(2) u by (metis mult_less_cancel_right_pos mult_1)
  from r m 1 2 show ?thesis
    unfolding q_def u_def by blast
qed

lemma round_half_even_multiple: "0 < d \<Longrightarrow> round_half_even (X * d) d = X"
  by (simp add: round_half_even_def)

lemma double_quotient_exact:
  assumes "0 < a" "0 < b" "rat_of_nat a / rat_of_nat b = rat_of_nat M * 2 powi E" "M < 2 ^ 53"
  shows "double_quotient a b = rat_of_nat a / rat_of_nat b"
proof -
  define K where "K = quotient_shift a b"
  define n d where "n = a * 2 ^ nat K" and "d = b * 2 ^ nat (- K)"
  define q where "q = rat_of_nat a / of_nat b"
  define x where "x = q * 2 powi K"
  define j where "j = E + K"
  have d: "0 < d" using assms(2) by (simp add: d_def)
  have xnd: "rat_of_nat n / of_nat d = x"
    unfolding n_def d_def x_def q_def by (rule scaled_ratio)
  from quotient_shift_normal [OF assms(1,2)] have x: "2 ^ 52 \<le> x"
    by (simp_all add: x_def q_def K_def)
  have xM: "x = of_nat M * 2 powi j"
    unfolding x_def q_def assms(3) j_def by (simp add: power_int_add)
  have j: "0 \<le> j"
  proof (rule ccontr)
    assume "\<not> 0 \<le> j"
    then have "j \<le> - 1" by simp
    then have "(2::rat) powi j \<le> 2 powi (- 1)"
      by (intro power_int_increasing) simp_all
    then have "(2::rat) powi j \<le> 1 / 2" by (simp add: power_int_minus)
    then have "x \<le> of_nat M * (1 / 2)"
      unfolding xM by (intro mult_left_mono) simp_all
    moreover have "rat_of_nat M < 2 ^ 53"
      using assms(4) by (metis of_nat_less_iff of_nat_numeral of_nat_power)
    ultimately have "x < 2 ^ 52" by simp
    with x show False by simp
  qed
  define X where "X = M * 2 ^ nat j"
  have xX: "x = of_nat X"
    unfolding xM X_def using j by (simp add: power_int_def)
  have "rat_of_nat n = of_nat X * of_nat d"
    using xnd d unfolding xX by (simp add: field_simps)
  then have "rat_of_nat n = rat_of_nat (X * d)" by simp
  then have n: "n = X * d" by (simp only: of_nat_eq_iff)
  have "double_quotient a b = of_nat (round_half_even n d) * 2 powi (- K)"
    by (simp add: double_quotient_def Let_def K_def n_def d_def)
  also have "\<dots> = x * 2 powi (- K)"
    unfolding n round_half_even_multiple [OF d] xX ..
  also have "\<dots> = q"
    unfolding x_def by (simp add: power_int_minus)
  finally show ?thesis by (simp add: q_def)
qed

lemma double_quotient_integer:
  assumes "0 < a" "0 < b" "b dvd a" "a div b < 2 ^ 53"
  shows "double_quotient a b = rat_of_nat (a div b)"
proof -
  from assms(3) obtain c where c: "a = b * c" by (rule dvdE)
  have "rat_of_nat a / rat_of_nat b = rat_of_nat (a div b)"
    using assms(2) by (simp add: c)
  moreover from this have "rat_of_nat a / rat_of_nat b = rat_of_nat (a div b) * 2 powi 0"
    by simp
  ultimately show ?thesis
    using double_quotient_exact [OF assms(1,2) _ assms(4), of 0] by simp
qed

lemma js_divide_rounds:
  assumes "0 < a" "0 < b"
  shows "\<exists>m k. js_divide a b = Finite (rat_of_nat m * 2 powi k) \<and> 2 ^ 52 \<le> m \<and> m \<le> 2 ^ 53 \<and>
    \<bar>rat_of_nat m * 2 powi k - rat_of_nat a / rat_of_nat b\<bar> * 2 \<le> 2 powi k \<and>
    (even m \<or> \<bar>rat_of_nat m * 2 powi k - rat_of_nat a / rat_of_nat b\<bar> * 2 < 2 powi k)"
  using double_quotient_rounds [OF assms] assms by (simp add: js_divide_def)

lemma js_divide_exact:
  assumes "0 < b" "rat_of_nat a / rat_of_nat b = rat_of_nat M * 2 powi E" "M < 2 ^ 53"
  shows "js_divide a b = Finite (rat_of_nat a / rat_of_nat b)"
proof (cases "a = 0")
  case True
  with assms(1) show ?thesis by (simp add: js_divide_def)
next
  case False
  then have "0 < a" by simp
  from double_quotient_exact [OF this assms] assms(1) False show ?thesis
    by (simp add: js_divide_def)
qed

lemma js_divide_4_3: "js_divide 4 3 = Finite (6004799503160661 / 4503599627370496)"
proof -
  have "quotient_shift 4 3 = 52"
    by (simp add: quotient_shift_def floor_log2.simps)
  then show ?thesis
    by (simp add: js_divide_def double_quotient_def round_half_even_def power_int_def power_divide)
qed

text \<open>
  Claim C10. For a non-empty list \<open>analyzeTransactionGroup\<close> returns the length of
  the list, the sum of the lengths of the blobs and the quotient of the two as
  JavaScript's division gives it: the double nearest to the exact quotient (a significand
  of 53 bits times a power of two, at most half a unit in the last place away, the even
  significand at a tie), hence the exact quotient wherever that is a double. For the
  empty list the average is the quotient of 0 by 0, computed without a guard: no error
  is raised and the result is \<open>NaN\<close>.
\<close>

theorem analyzeTransactionGroup_aggregate:
  "(transactions \<noteq> [] \<longrightarrow>
      count (analyzeTransactionGroup transactions) = length transactions \<and>
      totalSize (analyzeTransactionGroup transactions) = sum_list (map length transactions) \<and>
      averageSize (analyzeTransactionGroup transactions) =
        js_divide (sum_list (map length transactions)) (length transactions) \<and>
      (0 < sum_list (map length transactions) \<longrightarrow>
         (\<exists>m k. averageSize (analyzeTransactionGroup transactions) = Finite (rat_of_nat m * 2 powi k) \<and>
            2 ^ 52 \<le> m \<and> m \<le> 2 ^ 53 \<and>
            \<bar>rat_of_nat m * 2 powi k -
              rat_of_nat (sum_list (map length transactions)) / rat_of_nat (length transactions)\<bar> * 2
              \<le> 2 powi k \<and>
            (even m \<or>
             \<bar>rat_of_nat m * 2 powi k -
               rat_of_nat (sum_list (map length transactions)) / rat_of_nat (length transactions)\<bar> * 2
               < 2 powi k))) \<and>
      (M < 2 ^ 53 \<and>
       rat_of_nat (sum_list (map length transactions)) / rat_of_nat (length transactions) =
         rat_of_nat M * 2 powi E \<longrightarrow>
         averageSize (analyzeTransactionGroup transactions) =
           Finite (rat_of_nat (sum_list (map length transactions)) / rat_of_nat (length transactions)))) \<and>
   count (analyzeTransactionGroup []) = 0 \<and>
   totalSize (analyzeTransactionGroup []) = 0 \<and>
   averageSize (analyzeTransactionGroup []) = js_divide 0 0 \<and>
   js_divide 0 0 = NaN"
proof (intro conjI impI)
  let ?s = "sum_list (map length transactions)" and ?n = "length transactions"
  have avg: "averageSize (analyzeTransactionGroup transactions) = js_divide ?s ?n"
    by (simp add: analyzeTransactionGroup_def foldl_sizes)
  show "count (analyzeTransactionGroup transactions) = ?n"
    by (simp add: analyzeTransactionGroup_def)
  show "totalSize (analyzeTransactionGroup transactions) = ?s"
    by (simp add: analyzeTransactionGroup_def foldl_sizes)
  show "averageSize (analyzeTransactionGroup transactions) = js_divide ?s ?n"
    by (rule avg)
  show "\<exists>m k. averageSize (analyzeTransactionGroup transactions) = Finite (rat_of_nat m * 2 powi k) \<and>
            2 ^ 52 \<le> m \<and> m \<le> 2 ^ 53 \<and>
            \<bar>rat_of_nat m * 2 powi k - rat_of_nat ?s / rat_of_nat ?n\<bar> * 2 \<le> 2 powi k \<and>
            (even m \<or> \<bar>rat_of_nat m * 2 powi k - rat_of_nat ?s / rat_of_nat ?n\<bar> * 2 < 2 powi k)"
    if "transactions \<noteq> []" "0 < ?s"
    unfolding avg using that by (intro js_divide_rounds) simp_all
  show "averageSize (analyzeTransactionGroup transactions) = Finite (rat_of_nat ?s / rat_of_nat ?n)"
    if "transactions \<noteq> []" "M < 2 ^ 53 \<and> rat_of_nat ?s / rat_of_nat ?n = rat_of_nat M * 2 powi E"
    unfolding avg using that by (intro js_divide_exact [of _ _ M E]) simp_all
  show "count (analyzeTransactionGroup []) = 0" "totalSize (analyzeTransactionGroup []) = 0"
    "averageSize (analyzeTransactionGroup []) = js_divide 0 0" "js_divide 0 0 = NaN"
    by (simp_all add: analyzeTransactionGroup_def js_divide_def)
qed

theorem analyzeTransactionGroup_aggregate_witness:
  "count (analyzeTransactionGroup [[1], [2], [3, 4]]) = 3 \<and>
   totalSize (analyzeTransactionGroup [[1], [2], [3, 4]]) = 4 \<and>
   averageSize (analyzeTransactionGroup [[1], [2], [3, 4]]) =
     Finite (6004799503160661 / 4503599627370496) \<and>
   averageSize (analyzeTransactionGroup [[1, 2, 3], [4]]) = Finite 2"
proof -
  have l: "length [[1::byte], [2], [3, 4]] = 3" "sum_list (map length [[1::byte], [2], [3, 4]]) = 4"
    "length [[1::byte, 2, 3], [4]] = 2" "sum_list (map length [[1::byte, 2, 3], [4]]) = 4"
    by simp_all
  have ne: "[[1::byte], [2], [3, 4]] \<noteq> []" "[[1::byte, 2, 3], [4]] \<noteq> []"
    by simp_all
  have q: "rat_of_nat 4 / rat_of_nat 2 = rat_of_nat 2 * 2 powi 0" "(2::nat) < 2 ^ 53"
    by simp_all
  from analyzeTransactionGroup_aggregate [of "[[1], [2], [3, 4]]" 0 0, unfolded l] ne(1)
  have "count (analyzeTransactionGroup [[1], [2], [3, 4]]) = 3 \<and>
   totalSize (analyzeTransactionGroup [[1], [2], [3, 4]]) = 4 \<and>
   averageSize (analyzeTransactionGroup [[1], [2], [3, 4]]) = js_divide 4 3"
    by blast
  moreover from analyzeTransactionGroup_aggregate [of "[[1, 2, 3], [4]]" 2 0, unfolded l] ne(2) q
  have "averageSize (analyzeTransactionGroup [[1, 2, 3], [4]]) = Finite (rat_of_nat 4 / rat_of_nat 2)"
    by blast
  ultimately show ?thesis by (simp add: js_divide_4_3)
qed

end
